theory Spec2Isabelle
  imports Main "HOL-Library.Word"
begin

unbundle bit_operations_syntax

section \<open>Payment client: \<^verbatim>\<open>src/services/mercuryo.ts\<close>\<close>

subsection \<open>JavaScript strings and the bytes that are hashed\<close>

text \<open>
  A TypeScript \<^verbatim>\<open>string\<close> is a sequence of 16-bit code units, and \<^verbatim>\<open>===\<close> on two
  strings compares them unit by unit. \<^verbatim>\<open>Hmac.update(payload)\<close> and the string key of
  \<^verbatim>\<open>crypto.createHmac\<close> are turned into bytes with the \<^verbatim>\<open>utf8\<close> encoding: a surrogate
  pair becomes one four-byte sequence, and a surrogate code unit that has no partner
  becomes the replacement character U+FFFD, the bytes \<^verbatim>\<open>EF BF BD\<close>.
\<close>

type_synonym byte = "8 word"
type_synonym jsstring = "16 word list"

definition js :: "string \<Rightarrow> jsstring" where
  "js s = map (\<lambda>c. of_nat (of_char c)) s"

definition high_surrogate :: "16 word \<Rightarrow> bool" where
  "high_surrogate u = (0xD800 \<le> u \<and> u \<le> 0xDBFF)"

definition low_surrogate :: "16 word \<Rightarrow> bool" where
  "low_surrogate u = (0xDC00 \<le> u \<and> u \<le> 0xDFFF)"

definition utf8_unit :: "16 word \<Rightarrow> byte list" where
  "utf8_unit u =
     (if u < 0x80 then [ucast u]
      else if u < 0x800 then [0xC0 OR ucast (drop_bit 6 u), 0x80 OR ucast (u AND 0x3F)]
      else [0xE0 OR ucast (drop_bit 12 u), 0x80 OR ucast (drop_bit 6 u AND 0x3F),
            0x80 OR ucast (u AND 0x3F)])"

definition utf8_pair :: "16 word \<Rightarrow> 16 word \<Rightarrow> byte list" where
  "utf8_pair hi lo =
     (let cp = (0x10000 + push_bit 10 (ucast (hi - 0xD800)) + ucast (lo - 0xDC00) :: 32 word)
      in [0xF0 OR ucast (drop_bit 18 cp), 0x80 OR ucast (drop_bit 12 cp AND 0x3F),
          0x80 OR ucast (drop_bit 6 cp AND 0x3F), 0x80 OR ucast (cp AND 0x3F)])"

fun utf8 :: "jsstring \<Rightarrow> byte list" where
  "utf8 [] = []"
| "utf8 [u] = (if high_surrogate u \<or> low_surrogate u then [0xEF, 0xBF, 0xBD] else utf8_unit u)"
| "utf8 (u # v # rest) =
     (if high_surrogate u \<and> low_surrogate v then utf8_pair u v @ utf8 rest
      else if high_surrogate u \<or> low_surrogate u then [0xEF, 0xBF, 0xBD] @ utf8 (v # rest)
      else utf8_unit u @ utf8 (v # rest))"

subsection \<open>SHA-256 and HMAC, as \<^verbatim>\<open>crypto.createHmac('sha256', key)\<close> computes them\<close>

type_synonym u32 = "32 word"

definition rotr :: "nat \<Rightarrow> u32 \<Rightarrow> u32" where
  "rotr n x = drop_bit n x OR push_bit (32 - n) x"

definition ch :: "u32 \<Rightarrow> u32 \<Rightarrow> u32 \<Rightarrow> u32" where
  "ch x y z = (x AND y) XOR (NOT x AND z)"

definition maj :: "u32 \<Rightarrow> u32 \<Rightarrow> u32 \<Rightarrow> u32" where
  "maj x y z = (x AND y) XOR (x AND z) XOR (y AND z)"

definition bsig0 :: "u32 \<Rightarrow> u32" where
  "bsig0 x = rotr 2 x XOR rotr 13 x XOR rotr 22 x"

definition bsig1 :: "u32 \<Rightarrow> u32" where
  "bsig1 x = rotr 6 x XOR rotr 11 x XOR rotr 25 x"

definition ssig0 :: "u32 \<Rightarrow> u32" where
  "ssig0 x = rotr 7 x XOR rotr 18 x XOR drop_bit 3 x"

definition ssig1 :: "u32 \<Rightarrow> u32" where
  "ssig1 x = rotr 17 x XOR rotr 19 x XOR drop_bit 10 x"

definition sha256_k :: "u32 list" where
  "sha256_k = [
    0x428A2F98, 0x71374491, 0xB5C0FBCF, 0xE9B5DBA5, 0x3956C25B, 0x59F111F1, 0x923F82A4, 0xAB1C5ED5,
    0xD807AA98, 0x12835B01, 0x243185BE, 0x550C7DC3, 0x72BE5D74, 0x80DEB1FE, 0x9BDC06A7, 0xC19BF174,
    0xE49B69C1, 0xEFBE4786, 0x0FC19DC6, 0x240CA1CC, 0x2DE92C6F, 0x4A7484AA, 0x5CB0A9DC, 0x76F988DA,
    0x983E5152, 0xA831C66D, 0xB00327C8, 0xBF597FC7, 0xC6E00BF3, 0xD5A79147, 0x06CA6351, 0x14292967,
    0x27B70A85, 0x2E1B2138, 0x4D2C6DFC, 0x53380D13, 0x650A7354, 0x766A0ABB, 0x81C2C92E, 0x92722C85,
    0xA2BFE8A1, 0xA81A664B, 0xC24B8B70, 0xC76C51A3, 0xD192E819, 0xD6990624, 0xF40E3585, 0x106AA070,
    0x19A4C116, 0x1E376C08, 0x2748774C, 0x34B0BCB5, 0x391C0CB3, 0x4ED8AA4A, 0x5B9CCA4F, 0x682E6FF3,
    0x748F82EE, 0x78A5636F, 0x84C87814, 0x8CC70208, 0x90BEFFFA, 0xA4506CEB, 0xBEF9A3F7, 0xC67178F2]"

definition sha256_init :: "u32 list" where
  "sha256_init = [0x6A09E667, 0xBB67AE85, 0x3C6EF372, 0xA54FF53A,
                  0x510E527F, 0x9B05688C, 0x1F83D9AB, 0x5BE0CD19]"

definition be32 :: "byte \<Rightarrow> byte \<Rightarrow> byte \<Rightarrow> byte \<Rightarrow> u32" where
  "be32 a b c d = push_bit 24 (ucast a) OR push_bit 16 (ucast b) OR push_bit 8 (ucast c) OR ucast d"

definition bytes_of_u32 :: "u32 \<Rightarrow> byte list" where
  "bytes_of_u32 w = [ucast (drop_bit 24 w), ucast (drop_bit 16 w), ucast (drop_bit 8 w), ucast w]"

fun words_of_bytes :: "byte list \<Rightarrow> u32 list" where
  "words_of_bytes (a # b # c # d # rest) = be32 a b c d # words_of_bytes rest"
| "words_of_bytes _ = []"

definition length_bytes :: "nat \<Rightarrow> byte list" where
  "length_bytes n =
     (let w = (of_nat n :: 64 word)
      in map (\<lambda>i. ucast (drop_bit (8 * (7 - i)) w)) [0..<8])"

definition sha256_pad :: "byte list \<Rightarrow> byte list" where
  "sha256_pad m =
     m @ [0x80] @ replicate ((119 - length m mod 64) mod 64) 0 @ length_bytes (8 * length m)"

definition extend :: "u32 list \<Rightarrow> nat \<Rightarrow> u32 list" where
  "extend w t = w @ [ssig1 (w ! (t - 2)) + w ! (t - 7) + ssig0 (w ! (t - 15)) + w ! (t - 16)]"

definition schedule :: "u32 list \<Rightarrow> u32 list" where
  "schedule w = foldl extend w [16..<64]"

fun round_step :: "u32 list \<Rightarrow> u32 \<times> u32 \<Rightarrow> u32 list" where
  "round_step [a, b, c, d, e, f, g, h] (k, w) =
     (let t1 = h + bsig1 e + ch e f g + k + w;
          t2 = bsig0 a + maj a b c
      in [t1 + t2, a, b, c, d + t1, e, f, g])"
| "round_step s _ = s"

definition compress :: "u32 list \<Rightarrow> byte list \<Rightarrow> u32 list" where
  "compress h block =
     map2 (+) h (foldl round_step h (zip sha256_k (schedule (words_of_bytes block))))"

fun blocks :: "byte list \<Rightarrow> byte list list" where
  "blocks [] = []"
| "blocks (b # bs) = take 64 (b # bs) # blocks (drop 63 bs)"

definition sha256 :: "byte list \<Rightarrow> byte list" where
  "sha256 m = concat (map bytes_of_u32 (foldl compress sha256_init (blocks (sha256_pad m))))"

definition hmac_key_block :: "byte list \<Rightarrow> byte list" where
  "hmac_key_block key =
     (let k = (if length key > 64 then sha256 key else key)
      in k @ replicate (64 - length k) 0)"

definition hmac_sha256 :: "byte list \<Rightarrow> byte list \<Rightarrow> byte list" where
  "hmac_sha256 key m =
     (let k = hmac_key_block key
      in sha256 (map (\<lambda>b. b XOR 0x5c) k @ sha256 (map (\<lambda>b. b XOR 0x36) k @ m)))"

text \<open>\<^verbatim>\<open>digest('hex')\<close>: two lowercase hexadecimal digits for every byte.\<close>

definition hex_digit :: "byte \<Rightarrow> 16 word" where
  "hex_digit n = (if n < 10 then 0x30 + ucast n else 0x57 + ucast n)"

definition digest_hex :: "byte list \<Rightarrow> jsstring" where
  "digest_hex bs = concat (map (\<lambda>b. [hex_digit (drop_bit 4 b), hex_digit (b AND 0x0F)]) bs)"

subsection \<open>The service and its webhook functions\<close>

record MercuryoService =
  apiKey :: jsstring
  secret :: jsstring
  webhookSecret :: jsstring

definition verifyWebhookSignature :: "MercuryoService \<Rightarrow> jsstring \<Rightarrow> jsstring \<Rightarrow> bool" where
  "verifyWebhookSignature this payload signature =
     (let calculatedSignature = digest_hex (hmac_sha256 (utf8 (webhookSecret this)) (utf8 payload))
      in calculatedSignature = signature)"

text \<open>
  The body of \<^verbatim>\<open>parseWebhook\<close> has type \<^verbatim>\<open>any\<close>: it is a string or some other value.
  \<^verbatim>\<open>JSON.stringify\<close> and \<^verbatim>\<open>JSON.parse\<close> are the runtime's; they are parameters here.
  \<^verbatim>\<open>JSON.stringify\<close> yields a text, yields \<^verbatim>\<open>undefined\<close> (on which \<^verbatim>\<open>Hmac.update\<close> throws
  a \<^verbatim>\<open>TypeError\<close>) or throws some value of its own (what a \<^verbatim>\<open>toJSON\<close> method throws,
  a \<^verbatim>\<open>TypeError\<close> on a cycle, a \<^verbatim>\<open>RangeError\<close>); line 94 has no handler, so that value
  leaves \<^verbatim>\<open>parseWebhook\<close> as it is. \<^verbatim>\<open>JSON.parse\<close> yields a value or throws a
  \<^verbatim>\<open>SyntaxError\<close>. The calls into the runtime are recorded in the order they are made.
\<close>

datatype 'o jsvalue = JSString jsstring | JSOther 'o

datatype 'x stringified = Text jsstring | Undefined | Throws 'x

datatype 'x error = Error string | TypeError | SyntaxError | Thrown 'x

datatype call = JSON_stringify | CreateHmac | JSON_parse

definition parseWebhook ::
  "('o \<Rightarrow> 'x stringified) \<Rightarrow> (jsstring \<Rightarrow> 'o jsvalue option) \<Rightarrow> MercuryoService \<Rightarrow>
   'o jsvalue \<Rightarrow> jsstring \<Rightarrow> call list \<times> ('x error + 'o jsvalue)" where
  "parseWebhook stringify parse this body signature =
     (case (case body of JSString s \<Rightarrow> ([], Text s)
                       | JSOther v \<Rightarrow> ([JSON_stringify], stringify v)) of
        (cs, Throws x) \<Rightarrow> (cs, Inl (Thrown x))
      | (cs, Undefined) \<Rightarrow> (cs @ [CreateHmac], Inl TypeError)
      | (cs, Text payload) \<Rightarrow>
          if \<not> verifyWebhookSignature this payload signature
          then (cs @ [CreateHmac], Inl (Error ''Invalid webhook signature''))
          else (case body of
                  JSString s \<Rightarrow>
                    (cs @ [CreateHmac, JSON_parse],
                     case parse s of None \<Rightarrow> Inl SyntaxError | Some v \<Rightarrow> Inr v)
                | JSOther v \<Rightarrow> (cs @ [CreateHmac], Inr body)))"

text \<open>The string that line 94 of the source hands to the verifier, when there is one.\<close>

definition webhook_payload :: "('o \<Rightarrow> 'x stringified) \<Rightarrow> 'o jsvalue \<Rightarrow> jsstring option" where
  "webhook_payload stringify body =
     (case body of
        JSString s \<Rightarrow> Some s
      | JSOther v \<Rightarrow> (case stringify v of Text s \<Rightarrow> Some s | _ \<Rightarrow> None))"

text \<open>Changing one bit of one code unit of a string.\<close>

definition flip_bit_at :: "nat \<Rightarrow> nat \<Rightarrow> jsstring \<Rightarrow> jsstring" where
  "flip_bit_at i b s = s[i := flip_bit b (s ! i)]"

section \<open>Panel client\<close>

text \<open>
  The panel client is the class \<^verbatim>\<open>MarzbanService\<close> of \<^verbatim>\<open>services/marzban.ts\<close>, which the
  sources carry in \<^verbatim>\<open>drizzle/0000_far_vivisector.sql\<close>, lines 186 to 568. The line numbers
  given below are those of that file.
\<close>

subsection \<open>Data\<close>

text \<open>
  The interface \<^verbatim>\<open>MarzbanUser\<close> (lines 191 to 203); \<^verbatim>\<open>vless_id\<close> is \<^verbatim>\<open>proxies.vless?.id\<close>, absent
  when the account has no \<^verbatim>\<open>vless\<close> entry; \<^verbatim>\<open>user_name\<close> is the field \<^verbatim>\<open>username\<close>.
\<close>

record MarzbanUser =
  user_name :: string
  vless_id :: "string option"
  status :: string
  used_traffic :: nat
  data_limit :: nat
  expire :: "nat option"

text \<open>
  What axios rejects a call with: a response whose status is outside 2xx
  (\<^verbatim>\<open>error.response.status\<close>), no response within the timeout of 30 seconds (\<^verbatim>\<open>error.code\<close> is
  \<^verbatim>\<open>ECONNABORTED\<close>), or no response for another reason (no \<^verbatim>\<open>error.response\<close>, another code).
  What the client throws is such an axios error, passed on, or an \<^verbatim>\<open>Error\<close> of its own with
  a message.
\<close>

datatype failure = HttpStatus nat | Timeout | NetworkFailure

datatype 'a reply = Ok 'a | Failed failure

datatype thrown = AxiosError failure | NewError string

datatype http_method = Get | Post | Put | Delete

datatype operation = GetUser string | CreateUser string nat "nat option"

text \<open>
  The world outside the client: the \<open>k\<close>-th exchange with the token endpoint and the \<open>k\<close>-th
  exchange with any other endpoint of the panel have a fixed outcome, and axios gives each
  of its errors a message.
\<close>

record world =
  token_exchange :: "nat \<Rightarrow> string reply"
  respond :: "nat \<Rightarrow> MarzbanUser reply"
  axios_message :: "failure \<Rightarrow> string"

text \<open>
  The instance fields the methods use (lines 219 to 221), the clock \<^verbatim>\<open>Date.now()\<close> in
  milliseconds, which the timers advance, and a trace of what the instance has done: the
  token exchanges and the other HTTP exchanges with the \<^verbatim>\<open>Authorization\<close> credential sent
  and the failure received, the timer waits, the entries into the 401 branch of the
  response interceptor, the replays it issues, and the operations entered.
\<close>

datatype event =
    Handshake "failure option"
  | Http http_method string "string option" "failure option"
  | Wait nat
  | Reauthenticate
  | Replay
  | Invoke operation

record MarzbanService =
  accessToken :: "string option"
  tokenExpiry :: nat
  isInitialized :: bool
  now :: nat
  trace :: "event list"

fun is_handshake :: "event \<Rightarrow> bool" where
  "is_handshake (Handshake _) = True"
| "is_handshake _ = False"

fun is_call :: "event \<Rightarrow> bool" where
  "is_call (Http _ _ _ _) = True"
| "is_call _ = False"

fun waits :: "event list \<Rightarrow> nat list" where
  "waits [] = []"
| "waits (Wait d # es) = d # waits es"
| "waits (_ # es) = waits es"

definition handshakes :: "event list \<Rightarrow> nat" where
  "handshakes tr = length (filter is_handshake tr)"

definition calls :: "event list \<Rightarrow> nat" where
  "calls tr = length (filter is_call tr)"

definition reauths :: "event list \<Rightarrow> nat" where
  "reauths tr = count_list tr Reauthenticate"

definition replays :: "event list \<Rightarrow> nat" where
  "replays tr = count_list tr Replay"

definition invoked :: "operation \<Rightarrow> event list \<Rightarrow> nat" where
  "invoked op tr = count_list tr (Invoke op)"

definition emit :: "event \<Rightarrow> MarzbanService \<Rightarrow> MarzbanService" where
  "emit e this = this\<lparr>trace := trace this @ [e]\<rparr>"

text \<open>\<^verbatim>\<open>await new Promise(resolve => setTimeout(resolve, delay))\<close>.\<close>

definition sleep :: "nat \<Rightarrow> MarzbanService \<Rightarrow> MarzbanService" where
  "sleep delay this = (emit (Wait delay) this)\<lparr>now := now this + delay\<rparr>"

text \<open>The instance after it has done \<open>es\<close> and \<open>ms\<close> milliseconds of timers have run.\<close>

definition having_done :: "event list \<Rightarrow> nat \<Rightarrow> MarzbanService \<Rightarrow> MarzbanService" where
  "having_done es ms this = this\<lparr>now := now this + ms, trace := trace this @ es\<rparr>"

text \<open>
  \<^verbatim>\<open>error.response?.status\<close>, \<^verbatim>\<open>error.message\<close> and the test of line 380,
  \<^verbatim>\<open>error.response?.status >= 500 || error.code === 'ECONNABORTED'\<close>, in which a missing
  status compares false.
\<close>

fun status_of :: "thrown \<Rightarrow> nat option" where
  "status_of (AxiosError (HttpStatus s)) = Some s"
| "status_of _ = None"

fun message :: "world \<Rightarrow> thrown \<Rightarrow> string" where
  "message W (AxiosError f) = axios_message W f"
| "message W (NewError m) = m"

definition isRetryable :: "thrown \<Rightarrow> bool" where
  "isRetryable error =
     ((case status_of error of Some s \<Rightarrow> 500 \<le> s | None \<Rightarrow> False) \<or> error = AxiosError Timeout)"

text \<open>\<^verbatim>\<open>!s\<close> for a string that may be absent: true when it is absent or empty.\<close>

fun falsy :: "string option \<Rightarrow> bool" where
  "falsy None = True"
| "falsy (Some s) = (s = [])"

text \<open>A count in a template literal: the decimal numeral.\<close>

fun decimal :: "nat \<Rightarrow> string" where
  "decimal n =
     (if n < 10 then [''0123456789'' ! n]
      else decimal (n div 10) @ [''0123456789'' ! (n mod 10)])"

declare decimal.simps [simp del]

definition MAX_RETRIES :: nat where
  "MAX_RETRIES = 3"

definition RETRY_DELAY_MS :: nat where
  "RETRY_DELAY_MS = 1000"

subsection \<open>The axios instance and authentication\<close>

text \<open>
  Every HTTP call of the class goes through the one axios instance \<^verbatim>\<open>this.client\<close>, hence
  through its response interceptor (lines 236 to 252): a 401 response makes it call
  \<^verbatim>\<open>authenticate()\<close> and, if that returns, send the same request again through the same
  instance, hence through the same interceptor; what \<^verbatim>\<open>authenticate()\<close> throws leaves the
  interceptor as it is; every other failure is thrown on. The interceptor keeps no mark on
  a request it has replayed.

  \<^verbatim>\<open>authenticate(retries)\<close> (lines 311 to 352) posts the credentials to the token endpoint
  through that instance, so its own call meets the interceptor too. The loop runs
  \<^verbatim>\<open>attempt\<close> from 1 to \<^verbatim>\<open>retries\<close>: a response stores the access token and sets the expiry to
  now plus 23 hours; whatever the call throws is caught, and then the last attempt throws
  \<^verbatim>\<open>Marzban authentication failed after ${retries} attempts: ${error.message}\<close>, any other
  attempt waits \<^verbatim>\<open>RETRY_DELAY_MS * Math.pow(2, attempt - 1)\<close> and goes on.

  Nothing bounds the recursion of the interceptor, so these functions carry fuel: each
  nested call gets one unit less, and \<open>None\<close> says that the fuel did not suffice. A call
  that is \<open>None\<close> for every amount of fuel never returns.
\<close>

fun post_token :: "nat \<Rightarrow> world \<Rightarrow> MarzbanService \<Rightarrow> ((thrown + string) \<times> MarzbanService) option"
and authenticate_from ::
  "nat \<Rightarrow> world \<Rightarrow> nat \<Rightarrow> nat \<Rightarrow> MarzbanService \<Rightarrow> ((thrown + unit) \<times> MarzbanService) option"
where
  "post_token 0 W this = None"
| "post_token (Suc fuel) W this =
     (case token_exchange W (handshakes (trace this)) of
        Ok access_token \<Rightarrow> Some (Inr access_token, emit (Handshake None) this)
      | Failed f \<Rightarrow>
          if f = HttpStatus 401
          then (case authenticate_from fuel W MAX_RETRIES 1
                       (emit Reauthenticate (emit (Handshake (Some f)) this)) of
                  None \<Rightarrow> None
                | Some (Inl error, this') \<Rightarrow> Some (Inl error, this')
                | Some (Inr _, this') \<Rightarrow> post_token fuel W (emit Replay this'))
          else Some (Inl (AxiosError f), emit (Handshake (Some f)) this))"
| "authenticate_from 0 W retries attempt this = None"
| "authenticate_from (Suc fuel) W retries attempt this =
     (if attempt \<le> retries
      then (case post_token fuel W this of
              None \<Rightarrow> None
            | Some (Inr access_token, this') \<Rightarrow>
                Some (Inr (), this'\<lparr>accessToken := Some access_token,
                                    tokenExpiry := now this' + 23 * 60 * 60 * 1000\<rparr>)
            | Some (Inl error, this') \<Rightarrow>
                if attempt = retries
                then Some (Inl (NewError (''Marzban authentication failed after '' @ decimal retries
                                            @ '' attempts: '' @ message W error)), this')
                else authenticate_from fuel W retries (attempt + 1)
                       (sleep (RETRY_DELAY_MS * 2 ^ (attempt - 1)) this'))
      else Some (Inr (), this))"

definition authenticate :: "nat \<Rightarrow> world \<Rightarrow> MarzbanService \<Rightarrow> ((thrown + unit) \<times> MarzbanService) option" where
  "authenticate fuel W this = authenticate_from fuel W MAX_RETRIES 1 this"

text \<open>\<^verbatim>\<open>initialize()\<close> (lines 302 to 306).\<close>

definition initialize :: "nat \<Rightarrow> world \<Rightarrow> MarzbanService \<Rightarrow> ((thrown + unit) \<times> MarzbanService) option" where
  "initialize fuel W this =
     (case authenticate fuel W this of
        None \<Rightarrow> None
      | Some (Inl error, this') \<Rightarrow> Some (Inl error, this')
      | Some (Inr _, this') \<Rightarrow> Some (Inr (), this'\<lparr>isInitialized := True\<rparr>))"

text \<open>\<^verbatim>\<open>ensureAuthenticated()\<close> (lines 357 to 361).\<close>

definition ensureAuthenticated ::
  "nat \<Rightarrow> world \<Rightarrow> MarzbanService \<Rightarrow> ((thrown + unit) \<times> MarzbanService) option" where
  "ensureAuthenticated fuel W this =
     (if falsy (accessToken this) \<or> tokenExpiry this \<le> now this
      then authenticate fuel W this
      else Some (Inr (), this))"

subsection \<open>Requests\<close>

text \<open>
  A call \<^verbatim>\<open>this.client[method](endpoint, data)\<close> to an endpoint other than the token endpoint,
  through the same interceptor; the request carries the access token of the moment as its
  \<^verbatim>\<open>Authorization\<close> header. The body sent has no part in the outcome and is left out.
\<close>

fun client_call ::
  "nat \<Rightarrow> world \<Rightarrow> http_method \<Rightarrow> string \<Rightarrow> MarzbanService \<Rightarrow> ((thrown + MarzbanUser) \<times> MarzbanService) option"
where
  "client_call 0 W m endpoint this = None"
| "client_call (Suc fuel) W m endpoint this =
     (case respond W (calls (trace this)) of
        Ok data \<Rightarrow> Some (Inr data, emit (Http m endpoint (accessToken this) None) this)
      | Failed f \<Rightarrow>
          if f = HttpStatus 401
          then (case authenticate fuel W
                       (emit Reauthenticate (emit (Http m endpoint (accessToken this) (Some f)) this)) of
                  None \<Rightarrow> None
                | Some (Inl error, this') \<Rightarrow> Some (Inl error, this')
                | Some (Inr _, this') \<Rightarrow> client_call fuel W m endpoint (emit Replay this'))
          else Some (Inl (AxiosError f), emit (Http m endpoint (accessToken this) (Some f)) this))"

text \<open>
  \<^verbatim>\<open>request(method, endpoint, data, retries)\<close> (lines 366 to 398): the session is ensured
  once, outside the loop; then \<^verbatim>\<open>attempt\<close> runs from 1 to \<^verbatim>\<open>retries\<close>. What the call throws is
  thrown on as it is when the attempt is the last or the error is not retryable; otherwise
  the loop waits \<^verbatim>\<open>RETRY_DELAY_MS * Math.pow(2, attempt - 1)\<close> and goes on. Every caller
  leaves \<^verbatim>\<open>retries\<close> at \<^verbatim>\<open>MAX_RETRIES\<close>.
\<close>

fun request_from ::
  "nat \<Rightarrow> world \<Rightarrow> http_method \<Rightarrow> string \<Rightarrow> nat \<Rightarrow> nat \<Rightarrow> MarzbanService \<Rightarrow>
   ((thrown + MarzbanUser) \<times> MarzbanService) option"
where
  "request_from 0 W m endpoint retries attempt this = None"
| "request_from (Suc fuel) W m endpoint retries attempt this =
     (if attempt \<le> retries
      then (case client_call fuel W m endpoint this of
              None \<Rightarrow> None
            | Some (Inr data, this') \<Rightarrow> Some (Inr data, this')
            | Some (Inl error, this') \<Rightarrow>
                if attempt = retries \<or> \<not> isRetryable error
                then Some (Inl error, this')
                else request_from fuel W m endpoint retries (attempt + 1)
                       (sleep (RETRY_DELAY_MS * 2 ^ (attempt - 1)) this'))
      else Some (Inl (NewError ''Request failed after retries''), this))"

definition request ::
  "nat \<Rightarrow> world \<Rightarrow> http_method \<Rightarrow> string \<Rightarrow> MarzbanService \<Rightarrow> ((thrown + MarzbanUser) \<times> MarzbanService) option"
where
  "request fuel W m endpoint this =
     (case ensureAuthenticated fuel W this of
        None \<Rightarrow> None
      | Some (Inl error, this') \<Rightarrow> Some (Inl error, this')
      | Some (Inr _, this') \<Rightarrow> request_from fuel W m endpoint MAX_RETRIES 1 this')"

subsection \<open>Operations\<close>

text \<open>
  \<^verbatim>\<open>getUser\<close> (lines 448 to 457), \<^verbatim>\<open>createUser\<close> (lines 403 to 427), \<^verbatim>\<open>userExists\<close> (lines 477
  to 484), \<^verbatim>\<open>getVlessConfig\<close> (lines 489 to 507) and \<^verbatim>\<open>getOrCreateUser\<close> (lines 550 to 556).
  Each \<^verbatim>\<open>catch\<close> replaces what was thrown by a new \<^verbatim>\<open>Error\<close> whose message quotes the message
  of the old one. The port of \<^verbatim>\<open>getVlessConfig\<close> is a JavaScript number, and the template
  literal renders it as the runtime renders numbers: \<open>render\<close> stands for that.
\<close>

definition getUser ::
  "nat \<Rightarrow> world \<Rightarrow> string \<Rightarrow> MarzbanService \<Rightarrow> ((thrown + MarzbanUser) \<times> MarzbanService) option" where
  "getUser fuel W username this =
     (case request fuel W Get (''/api/user/'' @ username) (emit (Invoke (GetUser username)) this) of
        None \<Rightarrow> None
      | Some (Inr user, this') \<Rightarrow> Some (Inr user, this')
      | Some (Inl error, this') \<Rightarrow>
          if status_of error = Some 404
          then Some (Inl (NewError (''Marzban user not found: '' @ username)), this')
          else Some (Inl (NewError (''Failed to get Marzban user: '' @ message W error)), this'))"

definition createUser ::
  "nat \<Rightarrow> world \<Rightarrow> string \<Rightarrow> nat \<Rightarrow> nat option \<Rightarrow> MarzbanService \<Rightarrow>
   ((thrown + MarzbanUser) \<times> MarzbanService) option" where
  "createUser fuel W username dataLimit expireDate this =
     (case request fuel W Post ''/api/user''
             (emit (Invoke (CreateUser username dataLimit expireDate)) this) of
        None \<Rightarrow> None
      | Some (Inr result, this') \<Rightarrow> Some (Inr result, this')
      | Some (Inl error, this') \<Rightarrow>
          Some (Inl (NewError (''Failed to create Marzban user: '' @ message W error)), this'))"

definition userExists :: "nat \<Rightarrow> world \<Rightarrow> string \<Rightarrow> MarzbanService \<Rightarrow> (bool \<times> MarzbanService) option" where
  "userExists fuel W username this =
     (case getUser fuel W username this of
        None \<Rightarrow> None
      | Some (Inr user, this') \<Rightarrow> Some (True, this')
      | Some (Inl error, this') \<Rightarrow> Some (False, this'))"

definition getVlessConfig ::
  "nat \<Rightarrow> world \<Rightarrow> ('n \<Rightarrow> string) \<Rightarrow> string \<Rightarrow> string \<Rightarrow> 'n \<Rightarrow> MarzbanService \<Rightarrow>
   ((thrown + string) \<times> MarzbanService) option" where
  "getVlessConfig fuel W render username serverHost serverPort this =
     (case getUser fuel W username this of
        None \<Rightarrow> None
      | Some (Inl error, this') \<Rightarrow>
          Some (Inl (NewError (''Failed to get VLESS config: '' @ message W error)), this')
      | Some (Inr user, this') \<Rightarrow>
          if falsy (vless_id user)
          then Some (Inl (NewError (''Failed to get VLESS config: ''
                                      @ message W (NewError ''VLESS ID not found for user''))), this')
          else Some (Inr (''vless://'' @ the (vless_id user) @ ''@'' @ serverHost @ '':''
                          @ render serverPort
                          @ ''?encryption=none&flow=xtls-rprx-vision&security=tls&sni='' @ serverHost
                          @ ''&type=tcp&headerType=none#'' @ username), this'))"

definition getOrCreateUser ::
  "nat \<Rightarrow> world \<Rightarrow> string \<Rightarrow> nat \<Rightarrow> nat option \<Rightarrow> MarzbanService \<Rightarrow>
   ((thrown + MarzbanUser) \<times> MarzbanService) option" where
  "getOrCreateUser fuel W username dataLimit expireDate this =
     (case getUser fuel W username this of
        None \<Rightarrow> None
      | Some (Inr user, this') \<Rightarrow> Some (Inr user, this')
      | Some (Inl error, this') \<Rightarrow> createUser fuel W username dataLimit expireDate this')"

subsection \<open>The singleton\<close>







datatype step = Call nat | Settle bool | Finally



fun callers :: "step list \<Rightarrow> nat list" where
  "callers [] = []"
| "callers (Call caller # steps) = caller # callers steps"
| "callers (_ # steps) = callers steps"

subsection \<open>Examples\<close>

text \<open>
  The messages axios gives its errors, a fresh instance, an instance with a session, and
  worlds: one whose panel answers every call, one whose token endpoint is down, one whose
  panel answers 401 to everything but the token exchange, and panels that answer from a
  list and then succeed.
\<close>

fun axios_text :: "failure \<Rightarrow> string" where
  "axios_text (HttpStatus s) = ''Request failed with status code '' @ decimal s"
| "axios_text Timeout = ''timeout of 30000ms exceeded''"
| "axios_text NetworkFailure = ''Network Error''"

definition fresh :: MarzbanService where
  "fresh = \<lparr>accessToken = None, tokenExpiry = 0, isInitialized = False, now = 0, trace = []\<rparr>"

definition signed_in :: MarzbanService where
  "signed_in = \<lparr>accessToken = Some ''t0'', tokenExpiry = 82800000, isInitialized = True,
                now = 0, trace = []\<rparr>"

definition alice :: MarzbanUser where
  "alice = \<lparr>user_name = ''alice'', vless_id = Some ''abc-123'', status = ''active'',
            used_traffic = 0, data_limit = 0, expire = None\<rparr>"

definition answering :: "failure list \<Rightarrow> MarzbanUser \<Rightarrow> nat \<Rightarrow> MarzbanUser reply" where
  "answering fs user k = (if k < length fs then Failed (fs ! k) else Ok user)"

definition panel_with :: "failure list \<Rightarrow> MarzbanUser \<Rightarrow> world" where
  "panel_with fs user =
     \<lparr>token_exchange = (\<lambda>k. Ok ''t1''), respond = answering fs user, axios_message = axios_text\<rparr>"

definition token_endpoint_down :: world where
  "token_endpoint_down =
     \<lparr>token_exchange = (\<lambda>k. Failed (HttpStatus 500)), respond = (\<lambda>k. Ok alice),
      axios_message = axios_text\<rparr>"

definition always_unauthorized :: world where
  "always_unauthorized =
     \<lparr>token_exchange = (\<lambda>k. Ok ''t1''), respond = (\<lambda>k. Failed (HttpStatus 401)),
      axios_message = axios_text\<rparr>"

section \<open>Payment client: the digest and the webhook functions\<close>

subsection \<open>Shape of the digest\<close>

lemma length_round_step: "length (round_step s kw) = length s"
  by (cases "(s, kw)" rule: round_step.cases) (simp_all add: Let_def)

lemma length_foldl_round_step: "length (foldl round_step s kws) = length s"
  by (induction kws arbitrary: s) (simp_all add: length_round_step)

lemma length_compress: "length (compress h b) = length h"
  by (simp add: compress_def length_foldl_round_step)

lemma length_foldl_compress: "length (foldl compress h bs) = length h"
  by (induction bs arbitrary: h) (simp_all add: length_compress)

lemma length_concat_bytes_of_u32: "length (concat (map bytes_of_u32 ws)) = 4 * length ws"
  by (induction ws) (simp_all add: bytes_of_u32_def)

lemma length_sha256: "length (sha256 m) = 32"
  by (simp add: sha256_def length_concat_bytes_of_u32 length_foldl_compress sha256_init_def)

lemma length_hmac_sha256: "length (hmac_sha256 key m) = 32"
  by (simp add: hmac_sha256_def Let_def length_sha256)

lemma length_digest_hex: "length (digest_hex bs) = 2 * length bs"
  by (induction bs) (simp_all add: digest_hex_def)

lemma flip_bit_neq: "b < 16 \<Longrightarrow> flip_bit b (w :: 16 word) \<noteq> w"
proof
  assume b: "b < 16" and eq: "flip_bit b w = w"
  have "bit (flip_bit b w) b \<longleftrightarrow> \<not> bit w b"
    using b by (simp add: bit_flip_bit_iff)
  with eq show False by simp
qed

lemma flip_bit_at_neq: "i < length s \<Longrightarrow> b < 16 \<Longrightarrow> flip_bit_at i b s \<noteq> s"
proof
  assume i: "i < length s" and b: "b < 16" and eq: "flip_bit_at i b s = s"
  from eq have "flip_bit_at i b s ! i = s ! i" by simp
  with i have "flip_bit b (s ! i) = s ! i" by (simp add: flip_bit_at_def)
  with flip_bit_neq [OF b] show False by blast
qed

lemma nibble_cases: "a < (16 :: byte) \<Longrightarrow> a \<in> of_nat ` {0..<16}"
proof -
  assume "a < 16"
  then have "unat a < 16" by (simp add: word_less_nat_alt)
  then have "unat a \<in> {0..<16}" by simp
  then have "of_nat (unat a) \<in> (of_nat ` {0..<16} :: byte set)" by (rule imageI)
  then show ?thesis by simp
qed

lemma nibble_set: "(of_nat ` {0..<16} :: byte set) = {0, 1, 2, 3, 4, 5, 6, 7, 8, 9, 10, 11, 12, 13, 14, 15}"
  by (simp add: atLeast0_lessThan_Suc numeral_eq_Suc insert_commute)

lemma hex_digit_inj: "a < 16 \<Longrightarrow> b < 16 \<Longrightarrow> hex_digit a = hex_digit b \<Longrightarrow> a = b"
  using nibble_cases [of a] nibble_cases [of b] unfolding nibble_set
  by (auto simp: hex_digit_def)

lemma drop_bit_4_less: "drop_bit 4 (x :: byte) < 16"
proof -
  have "unat x < 256" using unsigned_less [of x, where ?'a = nat] by simp
  then have "unat x div 16 < 16" by simp
  then show ?thesis by (simp add: word_less_nat_alt drop_bit_eq_div unat_div)
qed

lemma and_15_less: "(x :: byte) AND 0x0F < 16"
proof -
  have "x AND 0x0F \<le> 0x0F" by (rule word_and_le1)
  then show ?thesis by (simp add: word_le_nat_alt word_less_nat_alt)
qed

lemma byte_nibbles_eq:
  assumes "drop_bit 4 (x :: byte) = drop_bit 4 y" and "x AND 0x0F = y AND 0x0F"
  shows "x = y"
proof -
  have m: "(0x0F :: byte) = mask 4" by (simp add: mask_eq_exp_minus_1)
  from assms(2) have t: "take_bit 4 x = take_bit 4 y" by (simp add: m take_bit_eq_mask)
  have "x = push_bit 4 (drop_bit 4 x) + take_bit 4 x" by (simp add: bits_ident)
  also have "\<dots> = push_bit 4 (drop_bit 4 y) + take_bit 4 y" by (simp add: assms(1) t)
  also have "\<dots> = y" by (simp add: bits_ident)
  finally show ?thesis .
qed

lemma digest_hex_inj: "digest_hex xs = digest_hex ys \<Longrightarrow> xs = ys"
proof (induction xs arbitrary: ys)
  case Nil
  then show ?case by (cases ys) (simp_all add: digest_hex_def)
next
  case (Cons x xs)
  then obtain y ys' where ys: "ys = y # ys'"
    by (cases ys) (simp_all add: digest_hex_def)
  from Cons.prems have hi: "hex_digit (drop_bit 4 x) = hex_digit (drop_bit 4 y)"
    and lo: "hex_digit (x AND 0x0F) = hex_digit (y AND 0x0F)"
    and rest: "digest_hex xs = digest_hex ys'"
    by (simp_all add: ys digest_hex_def)
  have "x = y"
    using hex_digit_inj [OF drop_bit_4_less drop_bit_4_less hi]
      hex_digit_inj [OF and_15_less and_15_less lo]
    by (rule byte_nibbles_eq)
  with Cons.IH [OF rest] show ?case by (simp add: ys)
qed

lemma hex_digit_lower: "a < 16 \<Longrightarrow> hex_digit a \<in> set (js ''0123456789abcdef'')"
  using nibble_cases [of a] unfolding nibble_set
  by (auto simp: hex_digit_def js_def)

lemma digest_hex_lower: "set (digest_hex bs) \<subseteq> set (js ''0123456789abcdef'')"
proof (induction bs)
  case Nil
  show ?case by (simp add: digest_hex_def)
next
  case (Cons b bs)
  have "hex_digit (drop_bit 4 b) \<in> set (js ''0123456789abcdef'')"
    and "hex_digit (b AND 0x0F) \<in> set (js ''0123456789abcdef'')"
    by (rule hex_digit_lower [OF drop_bit_4_less], rule hex_digit_lower [OF and_15_less])
  with Cons show ?case by (simp add: digest_hex_def)
qed

lemma length_signature: "length (digest_hex (hmac_sha256 key m)) = 64"
  by (simp add: length_digest_hex length_hmac_sha256)

lemma utf8_lone_surrogates: "utf8 [0xD800] = [0xEF, 0xBF, 0xBD]" "utf8 [0xD801] = [0xEF, 0xBF, 0xBD]"
  by (simp_all add: high_surrogate_def)

lemma flip_example: "flip_bit_at 0 0 [0xD800] = [0xD801]"
  by (simp add: flip_bit_at_def flip_bit_eq_xor)

subsection \<open>A known answer\<close>

text \<open>
  The definitions above follow FIPS 180-4 (SHA-256) and RFC 2104 (HMAC). The digest of the
  three bytes of \<^verbatim>\<open>abc\<close> is the one the standard gives for it.
\<close>

lemma sha256_abc:
  "digest_hex (sha256 (utf8 (js ''abc''))) =
     js ''ba7816bf8f01cfea414140de5dae2223b00361a396177a9cb410ff61f20015ad''"
  by code_simp

subsection \<open>Signature verification\<close>

text \<open>
  Claim C1, as the code has it. \<^verbatim>\<open>verifyWebhookSignature(payload, signature)\<close> returns true if
  and only if \<^verbatim>\<open>signature\<close> is the lowercase hexadecimal HMAC-SHA256 of the UTF-8 encoding of
  \<^verbatim>\<open>payload\<close> under the webhook secret: 64 code units, each one of \<^verbatim>\<open>0123456789abcdef\<close>.
  From an accepted pair, changing any single bit of the signature gives false. A changed
  payload is rejected exactly when the HMAC of its UTF-8 encoding differs from that of the
  accepted payload.
\<close>

theorem verifyWebhookSignature_hmac_hex:
  "(verifyWebhookSignature this payload signature \<longleftrightarrow>
      signature = digest_hex (hmac_sha256 (utf8 (webhookSecret this)) (utf8 payload)))
   \<and> (verifyWebhookSignature this payload signature \<longrightarrow>
        length signature = 64 \<and> set signature \<subseteq> set (js ''0123456789abcdef''))
   \<and> (verifyWebhookSignature this payload signature \<and> i < length signature \<and> b < 16 \<longrightarrow>
        \<not> verifyWebhookSignature this payload (flip_bit_at i b signature))
   \<and> (verifyWebhookSignature this payload signature \<longrightarrow>
        (verifyWebhookSignature this payload' signature \<longleftrightarrow>
           hmac_sha256 (utf8 (webhookSecret this)) (utf8 payload') =
           hmac_sha256 (utf8 (webhookSecret this)) (utf8 payload)))"
proof -
  let ?mac = "\<lambda>p. hmac_sha256 (utf8 (webhookSecret this)) (utf8 p)"
  have iff: "\<And>p s. verifyWebhookSignature this p s \<longleftrightarrow> s = digest_hex (?mac p)"
    by (auto simp: verifyWebhookSignature_def)
  have shape: "verifyWebhookSignature this payload signature \<longrightarrow>
      length signature = 64 \<and> set signature \<subseteq> set (js ''0123456789abcdef'')"
    using digest_hex_lower [of "?mac payload"] by (simp add: iff length_signature)
  have sig: "verifyWebhookSignature this payload signature \<and> i < length signature \<and> b < 16 \<longrightarrow>
      \<not> verifyWebhookSignature this payload (flip_bit_at i b signature)"
    using flip_bit_at_neq [of i signature b] by (auto simp: iff)
  have pay: "verifyWebhookSignature this payload signature \<longrightarrow>
      (verifyWebhookSignature this payload' signature \<longleftrightarrow> ?mac payload' = ?mac payload)"
    using digest_hex_inj [of "?mac payload" "?mac payload'"] by (auto simp: iff)
  from iff [of payload signature] shape sig pay show ?thesis by blast
qed

theorem verifyWebhookSignature_hmac_hex_witness:
  "verifyWebhookSignature \<lparr>apiKey = js ''key'', secret = js ''secret'', webhookSecret = js ''whsec''\<rparr>
     (js ''{}'') (digest_hex (hmac_sha256 (utf8 (js ''whsec'')) (utf8 (js ''{}''))))
   \<and> (0::nat) < length (digest_hex (hmac_sha256 (utf8 (js ''whsec'')) (utf8 (js ''{}'')))) \<and> (0::nat) < 16
   \<and> \<not> verifyWebhookSignature \<lparr>apiKey = js ''key'', secret = js ''secret'', webhookSecret = js ''whsec''\<rparr>
         (js ''{}'') (flip_bit_at 0 0 (digest_hex (hmac_sha256 (utf8 (js ''whsec'')) (utf8 (js ''{}'')))))
   \<and> length (digest_hex (hmac_sha256 (utf8 (js ''whsec'')) (utf8 (js ''{}'')))) = 64"
  using verifyWebhookSignature_hmac_hex
    [of "\<lparr>apiKey = js ''key'', secret = js ''secret'', webhookSecret = js ''whsec''\<rparr>"
        "js ''{}''" "digest_hex (hmac_sha256 (utf8 (js ''whsec'')) (utf8 (js ''{}'')))" 0 0 "js ''{}''"]
  by (simp add: length_signature)

text \<open>
  The payload half of the bit-flip sentence of C1 does not hold for every payload string. The
  one-unit strings with the code units \<^verbatim>\<open>D800\<close> and \<^verbatim>\<open>D801\<close> differ in one bit; each is a
  surrogate without a partner and is hashed as the bytes \<^verbatim>\<open>EF BF BD\<close>, so the signature
  that verifies the first verifies the second as well.
\<close>

theorem verifyWebhookSignature_payload_bit_counterexample:
  "verifyWebhookSignature \<lparr>apiKey = js ''key'', secret = js ''secret'', webhookSecret = js ''whsec''\<rparr>
     [0xD800] (digest_hex (hmac_sha256 (utf8 (js ''whsec'')) [0xEF, 0xBF, 0xBD]))
   \<and> flip_bit_at 0 0 [0xD800] = [0xD801]
   \<and> verifyWebhookSignature \<lparr>apiKey = js ''key'', secret = js ''secret'', webhookSecret = js ''whsec''\<rparr>
     (flip_bit_at 0 0 [0xD800]) (digest_hex (hmac_sha256 (utf8 (js ''whsec'')) [0xEF, 0xBF, 0xBD]))"
  by (simp add: verifyWebhookSignature_def utf8_lone_surrogates flip_example del: utf8.simps)

lemma verified_signature_length:
  "verifyWebhookSignature this payload signature \<Longrightarrow> length signature = 64"
  by (auto simp: verifyWebhookSignature_def length_signature)

lemma verified_own_signature:
  "verifyWebhookSignature this payload (digest_hex (hmac_sha256 (utf8 (webhookSecret this)) (utf8 payload)))"
  by (simp add: verifyWebhookSignature_def)

subsection \<open>Parsing a webhook\<close>

text \<open>
  Claim C2, as the code has it. \<^verbatim>\<open>parseWebhook(body, signature)\<close> verifies the signature
  before anything is parsed. Whenever a payload string is formed (the body is a string, or
  \<^verbatim>\<open>JSON.stringify\<close> gives a text for it): when verification fails it raises the error
  \<^verbatim>\<open>Invalid webhook signature\<close>, \<^verbatim>\<open>JSON.parse\<close> is not called, and the outcome is the same
  whatever \<^verbatim>\<open>JSON.parse\<close> would do with the body; when verification succeeds the result is
  what decoding gives, unchanged: \<^verbatim>\<open>JSON.parse(body)\<close> for a string body, which is its
  \<^verbatim>\<open>SyntaxError\<close> when the signed text is not JSON, and the body itself otherwise. When
  \<^verbatim>\<open>JSON.stringify\<close> gives \<^verbatim>\<open>undefined\<close> the call ends in a \<^verbatim>\<open>TypeError\<close> of the HMAC, and
  when \<^verbatim>\<open>JSON.stringify\<close> throws, what it throws leaves the call unchanged and no HMAC is
  computed; neither of the two parses or returns anything. In every run \<^verbatim>\<open>JSON.parse\<close> is
  never called before the HMAC is computed.
\<close>

theorem parseWebhook_fails_closed:
  "(webhook_payload stringify body = Some payload \<and> \<not> verifyWebhookSignature this payload signature \<longrightarrow>
      snd (parseWebhook stringify parse this body signature) = Inl (Error ''Invalid webhook signature'')
      \<and> JSON_parse \<notin> set (fst (parseWebhook stringify parse this body signature))
      \<and> parseWebhook stringify parse' this body signature = parseWebhook stringify parse this body signature)
   \<and> (webhook_payload stringify body = Some payload \<and> verifyWebhookSignature this payload signature \<longrightarrow>
      snd (parseWebhook stringify parse this body signature) =
        (case body of
           JSString s \<Rightarrow> (case parse s of None \<Rightarrow> Inl SyntaxError | Some v \<Rightarrow> Inr v)
         | JSOther v \<Rightarrow> Inr body))
   \<and> (\<forall>v. body = JSOther v \<and> stringify v = Undefined \<longrightarrow>
      parseWebhook stringify parse this body signature = ([JSON_stringify, CreateHmac], Inl TypeError))
   \<and> (\<forall>v x. body = JSOther v \<and> stringify v = Throws x \<longrightarrow>
      parseWebhook stringify parse this body signature = ([JSON_stringify], Inl (Thrown x)))
   \<and> (webhook_payload stringify body = None \<longleftrightarrow>
        (\<exists>v. body = JSOther v \<and> (stringify v = Undefined \<or> (\<exists>x. stringify v = Throws x))))
   \<and> JSON_parse \<notin> set (takeWhile (\<lambda>c. c \<noteq> CreateHmac)
                             (fst (parseWebhook stringify parse this body signature)))"
proof (cases body)
  case (JSString s)
  then show ?thesis
    by (simp add: parseWebhook_def webhook_payload_def)
next
  case (JSOther v)
  then show ?thesis
    by (cases "stringify v") (simp_all add: parseWebhook_def webhook_payload_def)
qed

theorem parseWebhook_fails_closed_witness:
  "snd (parseWebhook (\<lambda>u::unit. Throws ''boom'') (\<lambda>s. Some (JSOther ()))
          \<lparr>apiKey = js ''key'', secret = js ''secret'', webhookSecret = js ''whsec''\<rparr>
          (JSString (js ''{}'')) (js ''00'')) = Inl (Error ''Invalid webhook signature'')
   \<and> snd (parseWebhook (\<lambda>u::unit. Throws ''boom'') (\<lambda>s. Some (JSOther ()))
          \<lparr>apiKey = js ''key'', secret = js ''secret'', webhookSecret = js ''whsec''\<rparr>
          (JSString (js ''{}'')) (digest_hex (hmac_sha256 (utf8 (js ''whsec'')) (utf8 (js ''{}'')))))
       = Inr (JSOther ())
   \<and> parseWebhook (\<lambda>u::unit. Throws ''boom'') (\<lambda>s. Some (JSOther ()))
          \<lparr>apiKey = js ''key'', secret = js ''secret'', webhookSecret = js ''whsec''\<rparr>
          (JSOther ()) (js ''00'') = ([JSON_stringify], Inl (Thrown ''boom''))"
proof -
  let ?svc = "\<lparr>apiKey = js ''key'', secret = js ''secret'', webhookSecret = js ''whsec''\<rparr>"
  let ?sig = "digest_hex (hmac_sha256 (utf8 (js ''whsec'')) (utf8 (js ''{}'')))"
  let ?str = "\<lambda>u::unit. Throws ''boom'' :: string stringified"
  have p: "webhook_payload ?str (JSString (js ''{}'')) = Some (js ''{}'')"
    by (simp add: webhook_payload_def)
  have bad: "\<not> verifyWebhookSignature ?svc (js ''{}'') (js ''00'')"
    using verified_signature_length [of ?svc "js ''{}''" "js ''00''"] by (auto simp: js_def)
  have good: "verifyWebhookSignature ?svc (js ''{}'') ?sig"
    using verified_own_signature [of ?svc "js ''{}''"] by simp
  show ?thesis
    using parseWebhook_fails_closed
            [of ?str "JSString (js ''{}'')" "js ''{}''" ?svc "js ''00''"
                "\<lambda>s. Some (JSOther ())" "\<lambda>s. None"]
          parseWebhook_fails_closed
            [of ?str "JSString (js ''{}'')" "js ''{}''" ?svc ?sig
                "\<lambda>s. Some (JSOther ())" "\<lambda>s. None"]
          parseWebhook_fails_closed
            [of ?str "JSOther ()" "js ''{}''" ?svc "js ''00''"
                "\<lambda>s. Some (JSOther ())" "\<lambda>s. None"]
          p bad good
    by simp
qed

text \<open>
  The claim as stated promises the decoded fields whenever verification succeeds, and the
  security error whenever nothing is returned. A correctly signed string body that is not
  JSON (here the text \<^verbatim>\<open>{\<close>, which every \<^verbatim>\<open>JSON.parse\<close> rejects) ends in a \<^verbatim>\<open>SyntaxError\<close>,
  and the body \<^verbatim>\<open>undefined\<close>, for which \<^verbatim>\<open>JSON.stringify\<close> gives \<^verbatim>\<open>undefined\<close>, ends in a
  \<^verbatim>\<open>TypeError\<close> whatever the signature.
\<close>

theorem parseWebhook_fails_closed_counterexample:
  "verifyWebhookSignature
       \<lparr>apiKey = js ''key'', secret = js ''secret'', webhookSecret = js ''whsec''\<rparr>
       (js ''{'') (digest_hex (hmac_sha256 (utf8 (js ''whsec'')) (utf8 (js ''{''))))
   \<and> parseWebhook (\<lambda>u::unit. Undefined :: unit stringified)
       (\<lambda>s. if s = js ''{'' then None else Some (JSOther ()))
       \<lparr>apiKey = js ''key'', secret = js ''secret'', webhookSecret = js ''whsec''\<rparr>
       (JSString (js ''{'')) (digest_hex (hmac_sha256 (utf8 (js ''whsec'')) (utf8 (js ''{''))))
     = ([CreateHmac, JSON_parse], Inl SyntaxError)
   \<and> parseWebhook (\<lambda>u::unit. Undefined :: unit stringified)
       (\<lambda>s. if s = js ''{'' then None else Some (JSOther ()))
       \<lparr>apiKey = js ''key'', secret = js ''secret'', webhookSecret = js ''whsec''\<rparr>
       (JSOther ()) (digest_hex (hmac_sha256 (utf8 (js ''whsec'')) (utf8 (js ''{''))))
     = ([JSON_stringify, CreateHmac], Inl TypeError)"
proof -
  let ?svc = "\<lparr>apiKey = js ''key'', secret = js ''secret'', webhookSecret = js ''whsec''\<rparr>"
  have good: "verifyWebhookSignature ?svc (js ''{'')
                (digest_hex (hmac_sha256 (utf8 (js ''whsec'')) (utf8 (js ''{''))))"
    using verified_own_signature [of ?svc "js ''{''"] by simp
  then show ?thesis
    by (simp add: parseWebhook_def)
qed

text \<open>
  Claim C10. \<^verbatim>\<open>parseWebhook\<close> accepts a body that is not a string: the signature is then
  verified over \<^verbatim>\<open>JSON.stringify(body)\<close>, the calls made are \<^verbatim>\<open>JSON.stringify\<close> and the HMAC
  only, and on success the same value is returned unchanged. A string body is never
  stringified, and \<^verbatim>\<open>JSON.parse\<close> is called on it exactly when verification has succeeded,
  after the HMAC.
\<close>

theorem parseWebhook_object_body:
  "(stringify v = Text payload \<longrightarrow>
      parseWebhook stringify parse this (JSOther v) signature =
        ([JSON_stringify, CreateHmac],
         if verifyWebhookSignature this payload signature then Inr (JSOther v)
         else Inl (Error ''Invalid webhook signature'')))
   \<and> JSON_parse \<notin> set (fst (parseWebhook stringify parse this (JSOther v) signature))
   \<and> JSON_stringify \<notin> set (fst (parseWebhook stringify parse this (JSString s) signature))
   \<and> (JSON_parse \<in> set (fst (parseWebhook stringify parse this (JSString s) signature)) \<longleftrightarrow>
        verifyWebhookSignature this s signature)
   \<and> (verifyWebhookSignature this s signature \<longrightarrow>
        fst (parseWebhook stringify parse this (JSString s) signature) = [CreateHmac, JSON_parse])"
  by (cases "stringify v") (simp_all add: parseWebhook_def)

theorem parseWebhook_object_body_witness:
  "parseWebhook (\<lambda>u::unit. Text (js ''{}'')) (\<lambda>s. None)
      \<lparr>apiKey = js ''key'', secret = js ''secret'', webhookSecret = js ''whsec''\<rparr>
      (JSOther ()) (digest_hex (hmac_sha256 (utf8 (js ''whsec'')) (utf8 (js ''{}''))))
     = ([JSON_stringify, CreateHmac], Inr (JSOther ()))
   \<and> fst (parseWebhook (\<lambda>u::unit. Text (js ''{}'')) (\<lambda>s. None)
      \<lparr>apiKey = js ''key'', secret = js ''secret'', webhookSecret = js ''whsec''\<rparr>
      (JSString (js ''{}'')) (digest_hex (hmac_sha256 (utf8 (js ''whsec'')) (utf8 (js ''{}'')))))
     = [CreateHmac, JSON_parse]"
proof -
  let ?svc = "\<lparr>apiKey = js ''key'', secret = js ''secret'', webhookSecret = js ''whsec''\<rparr>"
  let ?sig = "digest_hex (hmac_sha256 (utf8 (js ''whsec'')) (utf8 (js ''{}'')))"
  have good: "verifyWebhookSignature ?svc (js ''{}'') ?sig"
    using verified_own_signature [of ?svc "js ''{}''"] by simp
  show ?thesis
    using parseWebhook_object_body
            [of "\<lambda>u::unit. Text (js ''{}'') :: 'a stringified" "()" "js ''{}''"
                "\<lambda>s. None" ?svc ?sig "js ''{}''"]
          parseWebhook_object_body
            [of "\<lambda>u::unit. Text (js ''{}'') :: 'b stringified" "()" "js ''{}''"
                "\<lambda>s. None" ?svc ?sig "js ''{}''"]
          good
    by simp
qed

section \<open>Panel client: proofs\<close>

subsection \<open>Reading the trace\<close>

lemma counters_Nil [simp]:
  "handshakes [] = 0" "calls [] = 0" "reauths [] = 0" "replays [] = 0" "invoked op [] = 0"
  by (simp_all add: handshakes_def calls_def reauths_def replays_def invoked_def)

lemma counters_append [simp]:
  "handshakes (xs @ ys) = handshakes xs + handshakes ys"
  "calls (xs @ ys) = calls xs + calls ys"
  "reauths (xs @ ys) = reauths xs + reauths ys"
  "replays (xs @ ys) = replays xs + replays ys"
  "invoked op (xs @ ys) = invoked op xs + invoked op ys"
  by (induction xs) (simp_all add: handshakes_def calls_def reauths_def replays_def invoked_def)

lemma counters_Cons [simp]:
  "handshakes (e # es) = (if is_handshake e then 1 else 0) + handshakes es"
  "calls (e # es) = (if is_call e then 1 else 0) + calls es"
  "reauths (e # es) = (if e = Reauthenticate then 1 else 0) + reauths es"
  "replays (e # es) = (if e = Replay then 1 else 0) + replays es"
  "invoked op (e # es) = (if e = Invoke op then 1 else 0) + invoked op es"
  by (simp_all add: handshakes_def calls_def reauths_def replays_def invoked_def)

lemma waits_append [simp]: "waits (xs @ ys) = waits xs @ waits ys"
  by (induction xs rule: waits.induct) simp_all

lemma emit_fields [simp]:
  "trace (emit e this) = trace this @ [e]"
  "accessToken (emit e this) = accessToken this"
  "tokenExpiry (emit e this) = tokenExpiry this"
  "isInitialized (emit e this) = isInitialized this"
  "now (emit e this) = now this"
  by (simp_all add: emit_def)

lemma sleep_fields [simp]:
  "trace (sleep d this) = trace this @ [Wait d]"
  "accessToken (sleep d this) = accessToken this"
  "tokenExpiry (sleep d this) = tokenExpiry this"
  "isInitialized (sleep d this) = isInitialized this"
  "now (sleep d this) = now this + d"
  by (simp_all add: sleep_def)

subsection \<open>More fuel changes no result\<close>

lemma token_fuel_mono:
  "(post_token n W this = Some r \<longrightarrow> post_token (n + k) W this = Some r)
   \<and> (authenticate_from n W retries attempt this = Some q \<longrightarrow>
        authenticate_from (n + k) W retries attempt this = Some q)"
proof (induction n arbitrary: this r q attempt retries)
  case 0
  show ?case by simp
next
  case (Suc n)
  have pt: "post_token n W c = Some x \<Longrightarrow> post_token (n + k) W c = Some x" for c x
    using Suc by blast
  have au: "authenticate_from n W m a c = Some x \<Longrightarrow> authenticate_from (n + k) W m a c = Some x" for c x a m
    using Suc by blast
  have 1: "post_token (Suc n) W this = Some r \<longrightarrow> post_token (Suc n + k) W this = Some r"
    by (auto split: reply.splits option.splits sum.splits prod.splits if_splits dest!: pt au)
  have 2: "authenticate_from (Suc n) W retries attempt this = Some q \<longrightarrow>
        authenticate_from (Suc n + k) W retries attempt this = Some q"
    by (auto split: reply.splits option.splits sum.splits prod.splits if_splits dest!: pt au)
  show ?case using 1 2 by blast
qed

lemma post_token_mono:
  "post_token n W this = Some r \<Longrightarrow> n \<le> m \<Longrightarrow> post_token m W this = Some r"
  using token_fuel_mono [of n W this r "m - n"] by simp

lemma authenticate_from_mono:
  "authenticate_from n W retries attempt this = Some q \<Longrightarrow> n \<le> m \<Longrightarrow>
   authenticate_from m W retries attempt this = Some q"
  using token_fuel_mono [where n = n and k = "m - n" and q = q] by simp

lemma authenticate_mono:
  "authenticate n W this = Some q \<Longrightarrow> n \<le> m \<Longrightarrow> authenticate m W this = Some q"
  unfolding authenticate_def by (rule authenticate_from_mono)

lemma ensureAuthenticated_mono:
  "ensureAuthenticated n W this = Some q \<Longrightarrow> n \<le> m \<Longrightarrow> ensureAuthenticated m W this = Some q"
  unfolding ensureAuthenticated_def by (auto intro: authenticate_mono split: if_splits)

lemma client_call_mono:
  "client_call n W me ep this = Some r \<Longrightarrow> n \<le> m \<Longrightarrow> client_call m W me ep this = Some r"
proof (induction n arbitrary: this r m)
  case 0
  then show ?case by simp
next
  case (Suc n)
  then obtain m' where m: "m = Suc m'" and le: "n \<le> m'"
    by (cases m) auto
  have cc: "client_call n W me ep c = Some x \<Longrightarrow> client_call m' W me ep c = Some x" for c x
    using Suc.IH le by blast
  have au: "authenticate n W c = Some x \<Longrightarrow> authenticate m' W c = Some x" for c x
    using authenticate_mono le by blast
  show ?case
    using Suc.prems(1) unfolding m
    by (auto split: reply.splits option.splits sum.splits prod.splits if_splits dest!: cc au)
qed

lemma request_from_mono:
  "request_from n W me ep retries attempt this = Some r \<Longrightarrow> n \<le> m \<Longrightarrow>
   request_from m W me ep retries attempt this = Some r"
proof (induction n arbitrary: this r m attempt)
  case 0
  then show ?case by simp
next
  case (Suc n)
  then obtain m' where m: "m = Suc m'" and le: "n \<le> m'"
    by (cases m) auto
  have rf: "request_from n W me ep retries a c = Some x \<Longrightarrow> request_from m' W me ep retries a c = Some x" for c x a
    using Suc.IH le by blast
  have cc: "client_call n W me ep c = Some x \<Longrightarrow> client_call m' W me ep c = Some x" for c x
    using client_call_mono le by blast
  show ?case
    using Suc.prems(1) unfolding m
    by (auto split: option.splits sum.splits prod.splits if_splits dest!: cc rf)
qed

lemma request_mono:
  assumes "request n W me ep this = Some r" and "n \<le> m"
  shows "request m W me ep this = Some r"
proof (cases "ensureAuthenticated n W this")
  case None
  with assms show ?thesis by (simp add: request_def)
next
  case (Some q)
  then have m: "ensureAuthenticated m W this = Some q"
    using assms(2) by (rule ensureAuthenticated_mono)
  obtain res c where q: "q = (res, c)" by (cases q)
  show ?thesis
  proof (cases res)
    case (Inl e)
    with assms Some m q show ?thesis by (simp add: request_def)
  next
    case (Inr u)
    with assms(1) Some q have "request_from n W me ep MAX_RETRIES 1 c = Some r"
      by (simp add: request_def)
    then have "request_from m W me ep MAX_RETRIES 1 c = Some r"
      using assms(2) by (rule request_from_mono)
    with m q Inr show ?thesis by (simp add: request_def)
  qed
qed

subsection \<open>One step of each loop\<close>

lemma decimal_3: "decimal 3 = ''3''"
  by (simp add: decimal.simps)

lemma post_token_ok:
  "token_exchange W (handshakes (trace this)) = Ok t \<Longrightarrow>
   post_token (Suc n) W this = Some (Inr t, emit (Handshake None) this)"
  by simp

lemma post_token_failed:
  "token_exchange W (handshakes (trace this)) = Failed f \<Longrightarrow> f \<noteq> HttpStatus 401 \<Longrightarrow>
   post_token (Suc n) W this = Some (Inl (AxiosError f), emit (Handshake (Some f)) this)"
  by simp

lemma authenticate_from_ok:
  "token_exchange W (handshakes (trace this)) = Ok t \<Longrightarrow> a \<le> r \<Longrightarrow>
   authenticate_from (Suc (Suc n)) W r a this =
     Some (Inr (), (emit (Handshake None) this)\<lparr>accessToken := Some t,
                     tokenExpiry := now this + 23 * 60 * 60 * 1000\<rparr>)"
  by simp

lemma authenticate_from_retry:
  "token_exchange W (handshakes (trace this)) = Failed f \<Longrightarrow> f \<noteq> HttpStatus 401 \<Longrightarrow> a < r \<Longrightarrow>
   authenticate_from (Suc (Suc n)) W r a this =
     authenticate_from (Suc n) W r (Suc a)
       (sleep (RETRY_DELAY_MS * 2 ^ (a - 1)) (emit (Handshake (Some f)) this))"
  by simp

lemma authenticate_from_last:
  "token_exchange W (handshakes (trace this)) = Failed f \<Longrightarrow> f \<noteq> HttpStatus 401 \<Longrightarrow>
   authenticate_from (Suc (Suc n)) W r r this =
     Some (Inl (NewError (''Marzban authentication failed after '' @ decimal r
                           @ '' attempts: '' @ axios_message W f)),
           emit (Handshake (Some f)) this)"
  by simp

declare post_token.simps [simp del] authenticate_from.simps [simp del]

lemma authenticate_schedule_aux:
  assumes n0: "token_exchange W (handshakes (trace this)) \<noteq> Failed (HttpStatus 401)"
    and n1: "token_exchange W (handshakes (trace this) + 1) \<noteq> Failed (HttpStatus 401)"
    and n2: "token_exchange W (handshakes (trace this) + 2) \<noteq> Failed (HttpStatus 401)"
  shows "\<exists>r this'. authenticate (Suc (Suc (Suc (Suc n)))) W this = Some (r, this')
     \<and> (\<exists>k\<in>{1, 2, 3}.
           handshakes (trace this') = handshakes (trace this) + k
         \<and> waits (trace this') = waits (trace this) @ take (k - 1) [1000, 2000]
         \<and> now this' = now this + sum_list (take (k - 1) [1000, 2000])
         \<and> (\<forall>j<k - 1. \<exists>f. token_exchange W (handshakes (trace this) + j) = Failed f)
         \<and> (case r of
               Inr u \<Rightarrow> token_exchange W (handshakes (trace this) + (k - 1)) = Ok (the (accessToken this'))
                         \<and> accessToken this' \<noteq> None
                         \<and> tokenExpiry this' = now this' + 82800000
             | Inl e \<Rightarrow> k = 3
                         \<and> (\<exists>f. token_exchange W (handshakes (trace this) + 2) = Failed f
                                \<and> e = NewError (''Marzban authentication failed after 3 attempts: ''
                                                 @ axios_message W f))
                         \<and> accessToken this' = accessToken this
                         \<and> tokenExpiry this' = tokenExpiry this))"
proof (cases "token_exchange W (handshakes (trace this))")
  case (Ok t)
  show ?thesis
    unfolding authenticate_def MAX_RETRIES_def
    using authenticate_from_ok [OF Ok, of 1 3 "Suc (Suc n)"] Ok by simp
next
  case f0: (Failed f0)
  let ?c1 = "sleep (RETRY_DELAY_MS * 2 ^ (1 - 1)) (emit (Handshake (Some f0)) this)"
  have h1: "handshakes (trace ?c1) = handshakes (trace this) + 1" by simp
  have s1: "authenticate (Suc (Suc (Suc (Suc n)))) W this = authenticate_from (Suc (Suc (Suc n))) W 3 (Suc 1) ?c1"
    unfolding authenticate_def MAX_RETRIES_def
    using authenticate_from_retry [OF f0, of 1 3 "Suc (Suc n)"] n0 f0 by simp
  show ?thesis
  proof (cases "token_exchange W (handshakes (trace this) + 1)")
    case (Ok t)
    then have "token_exchange W (handshakes (trace ?c1)) = Ok t" by (simp only: h1)
    from authenticate_from_ok [OF this, of "Suc 1" 3 "Suc n"] s1 Ok f0
    show ?thesis by (simp add: RETRY_DELAY_MS_def)
  next
    case f1: (Failed f1)
    then have f1': "token_exchange W (handshakes (trace ?c1)) = Failed f1" by (simp only: h1)
    let ?c2 = "sleep (RETRY_DELAY_MS * 2 ^ (Suc 1 - 1)) (emit (Handshake (Some f1)) ?c1)"
    have h2: "handshakes (trace ?c2) = handshakes (trace this) + 2" by simp
    have s2: "authenticate (Suc (Suc (Suc (Suc n)))) W this = authenticate_from (Suc (Suc n)) W 3 3 ?c2"
      using authenticate_from_retry [OF f1', of "Suc 1" 3 "Suc n"] n1 f1 s1
      by (simp add: numeral_3_eq_3)
    show ?thesis
    proof (cases "token_exchange W (handshakes (trace this) + 2)")
      case (Ok t)
      then have "token_exchange W (handshakes (trace ?c2)) = Ok t" by (simp only: h2)
      from authenticate_from_ok [OF this, of 3 3 n] s2 Ok f0 f1
      show ?thesis by (auto simp add: RETRY_DELAY_MS_def less_2_cases_iff)
    next
      case f2: (Failed f2)
      then have f2': "token_exchange W (handshakes (trace ?c2)) = Failed f2" by (simp only: h2)
      from authenticate_from_last [OF f2', of n 3] n2 f2 s2 f0 f1
      show ?thesis by (auto simp add: RETRY_DELAY_MS_def decimal_3 less_2_cases_iff)
    qed
  qed
qed

lemma client_call_ok:
  "respond W (calls (trace this)) = Ok u \<Longrightarrow>
   client_call (Suc n) W m ep this = Some (Inr u, emit (Http m ep (accessToken this) None) this)"
  by simp

lemma client_call_failed:
  "respond W (calls (trace this)) = Failed f \<Longrightarrow> f \<noteq> HttpStatus 401 \<Longrightarrow>
   client_call (Suc n) W m ep this =
     Some (Inl (AxiosError f), emit (Http m ep (accessToken this) (Some f)) this)"
  by simp

lemma isRetryable_simps [simp]:
  "isRetryable (AxiosError (HttpStatus s)) = (500 \<le> s)"
  "isRetryable (AxiosError Timeout)"
  "\<not> isRetryable (AxiosError NetworkFailure)"
  "\<not> isRetryable (NewError msg)"
  by (simp_all add: isRetryable_def)

lemma retryable_not_401: "isRetryable (AxiosError f) \<Longrightarrow> f \<noteq> HttpStatus 401"
  by auto

lemma request_from_ok:
  "respond W (calls (trace this)) = Ok u \<Longrightarrow> a \<le> r \<Longrightarrow>
   request_from (Suc (Suc n)) W m ep r a this =
     Some (Inr u, emit (Http m ep (accessToken this) None) this)"
  by simp

lemma request_from_throw:
  "respond W (calls (trace this)) = Failed f \<Longrightarrow> f \<noteq> HttpStatus 401 \<Longrightarrow> a \<le> r \<Longrightarrow>
   a = r \<or> \<not> isRetryable (AxiosError f) \<Longrightarrow>
   request_from (Suc (Suc n)) W m ep r a this =
     Some (Inl (AxiosError f), emit (Http m ep (accessToken this) (Some f)) this)"
  by auto

lemma request_from_retry:
  "respond W (calls (trace this)) = Failed f \<Longrightarrow> isRetryable (AxiosError f) \<Longrightarrow> a < r \<Longrightarrow>
   request_from (Suc (Suc n)) W m ep r a this =
     request_from (Suc n) W m ep r (Suc a)
       (sleep (RETRY_DELAY_MS * 2 ^ (a - 1)) (emit (Http m ep (accessToken this) (Some f)) this))"
  by auto

declare client_call.simps [simp del] request_from.simps [simp del]

lemma having_done_eq:
  "emit e this = having_done [e] 0 this"
  "sleep d this = having_done [Wait d] d this"
  "having_done es ms (having_done es' ms' this) = having_done (es' @ es) (ms' + ms) this"
  by (simp_all add: emit_def sleep_def having_done_def)

lemma having_done_fields [simp]:
  "trace (having_done es ms this) = trace this @ es"
  "now (having_done es ms this) = now this + ms"
  "accessToken (having_done es ms this) = accessToken this"
  "tokenExpiry (having_done es ms this) = tokenExpiry this"
  "isInitialized (having_done es ms this) = isInitialized this"
  by (simp_all add: having_done_def)

text \<open>The three attempts of the loop, from any state.\<close>

lemma request_from_policy:
  fixes W m ep c n
  defines "h \<equiv> calls (trace c)"
  defines "A \<equiv> \<lambda>f. Http m ep (accessToken c) (Some f)"
  defines "S \<equiv> Http m ep (accessToken c) None"
  defines "R \<equiv> request_from (Suc (Suc (Suc (Suc n)))) W m ep 3 1 c"
  shows
    "(\<forall>u. respond W h = Ok u \<longrightarrow> R = Some (Inr u, having_done [S] 0 c))"
    "(\<forall>f0. respond W h = Failed f0 \<and> f0 \<noteq> HttpStatus 401 \<and> \<not> isRetryable (AxiosError f0) \<longrightarrow>
        R = Some (Inl (AxiosError f0), having_done [A f0] 0 c))"
    "(\<forall>f0 u. respond W h = Failed f0 \<and> isRetryable (AxiosError f0) \<and> respond W (h + 1) = Ok u \<longrightarrow>
        R = Some (Inr u, having_done [A f0, Wait 1000, S] 1000 c))"
    "(\<forall>f0 f1. respond W h = Failed f0 \<and> isRetryable (AxiosError f0)
        \<and> respond W (h + 1) = Failed f1 \<and> f1 \<noteq> HttpStatus 401 \<and> \<not> isRetryable (AxiosError f1) \<longrightarrow>
        R = Some (Inl (AxiosError f1), having_done [A f0, Wait 1000, A f1] 1000 c))"
    "(\<forall>f0 f1 u. respond W h = Failed f0 \<and> isRetryable (AxiosError f0)
        \<and> respond W (h + 1) = Failed f1 \<and> isRetryable (AxiosError f1) \<and> respond W (h + 2) = Ok u \<longrightarrow>
        R = Some (Inr u, having_done [A f0, Wait 1000, A f1, Wait 2000, S] 3000 c))"
    "(\<forall>f0 f1 f2. respond W h = Failed f0 \<and> isRetryable (AxiosError f0)
        \<and> respond W (h + 1) = Failed f1 \<and> isRetryable (AxiosError f1)
        \<and> respond W (h + 2) = Failed f2 \<and> f2 \<noteq> HttpStatus 401 \<longrightarrow>
        R = Some (Inl (AxiosError f2), having_done [A f0, Wait 1000, A f1, Wait 2000, A f2] 3000 c))"
proof -
  have first: "respond W h = Failed f0 \<Longrightarrow> isRetryable (AxiosError f0) \<Longrightarrow>
     R = request_from (Suc (Suc (Suc n))) W m ep 3 2 (having_done [A f0, Wait 1000] 1000 c)" for f0
    unfolding R_def h_def A_def
    using request_from_retry [of W c f0 1 3 "Suc (Suc n)" m ep]
    by (simp add: having_done_eq RETRY_DELAY_MS_def numeral_2_eq_2)
  have second: "respond W (h + 1) = Failed f1 \<Longrightarrow> isRetryable (AxiosError f1) \<Longrightarrow>
     request_from (Suc (Suc (Suc n))) W m ep 3 2 (having_done [A f0, Wait 1000] 1000 c)
     = request_from (Suc (Suc n)) W m ep 3 3 (having_done [A f0, Wait 1000, A f1, Wait 2000] 3000 c)" for f0 f1
    unfolding h_def A_def
    using request_from_retry [of W "having_done [A f0, Wait 1000] 1000 c" f1 2 3 "Suc n" m ep]
    by (simp add: having_done_eq RETRY_DELAY_MS_def numeral_3_eq_3 A_def)
  show "(\<forall>u. respond W h = Ok u \<longrightarrow> R = Some (Inr u, having_done [S] 0 c))"
    unfolding R_def h_def S_def
    using request_from_ok [of W c _ 1 3 "Suc (Suc n)" m ep] by (simp add: having_done_eq)
  show "(\<forall>f0. respond W h = Failed f0 \<and> f0 \<noteq> HttpStatus 401 \<and> \<not> isRetryable (AxiosError f0) \<longrightarrow>
        R = Some (Inl (AxiosError f0), having_done [A f0] 0 c))"
    unfolding R_def h_def A_def
    using request_from_throw [of W c _ 1 3 "Suc (Suc n)" m ep] by (simp add: having_done_eq)
  show "(\<forall>f0 u. respond W h = Failed f0 \<and> isRetryable (AxiosError f0) \<and> respond W (h + 1) = Ok u \<longrightarrow>
        R = Some (Inr u, having_done [A f0, Wait 1000, S] 1000 c))"
  proof (intro allI impI, elim conjE)
    fix f0 u
    assume a: "respond W h = Failed f0" "isRetryable (AxiosError f0)" "respond W (h + 1) = Ok u"
    have "respond W (calls (trace (having_done [A f0, Wait 1000] 1000 c))) = Ok u"
      using a(3) by (simp add: h_def A_def)
    from request_from_ok [OF this, of 2 3 "Suc n" m ep] first [OF a(1,2)]
    show "R = Some (Inr u, having_done [A f0, Wait 1000, S] 1000 c)"
      by (simp add: having_done_eq S_def)
  qed
  show "(\<forall>f0 f1. respond W h = Failed f0 \<and> isRetryable (AxiosError f0)
        \<and> respond W (h + 1) = Failed f1 \<and> f1 \<noteq> HttpStatus 401 \<and> \<not> isRetryable (AxiosError f1) \<longrightarrow>
        R = Some (Inl (AxiosError f1), having_done [A f0, Wait 1000, A f1] 1000 c))"
  proof (intro allI impI, elim conjE)
    fix f0 f1
    assume a: "respond W h = Failed f0" "isRetryable (AxiosError f0)" "respond W (h + 1) = Failed f1"
      "f1 \<noteq> HttpStatus 401" "\<not> isRetryable (AxiosError f1)"
    have "respond W (calls (trace (having_done [A f0, Wait 1000] 1000 c))) = Failed f1"
      using a(3) by (simp add: h_def A_def)
    from request_from_throw [OF this a(4), of 2 3 "Suc n" m ep] first [OF a(1,2)] a(5)
    show "R = Some (Inl (AxiosError f1), having_done [A f0, Wait 1000, A f1] 1000 c)"
      by (simp add: having_done_eq A_def)
  qed
  show "(\<forall>f0 f1 u. respond W h = Failed f0 \<and> isRetryable (AxiosError f0)
        \<and> respond W (h + 1) = Failed f1 \<and> isRetryable (AxiosError f1) \<and> respond W (h + 2) = Ok u \<longrightarrow>
        R = Some (Inr u, having_done [A f0, Wait 1000, A f1, Wait 2000, S] 3000 c))"
  proof (intro allI impI, elim conjE)
    fix f0 f1 u
    assume a: "respond W h = Failed f0" "isRetryable (AxiosError f0)" "respond W (h + 1) = Failed f1"
      "isRetryable (AxiosError f1)" "respond W (h + 2) = Ok u"
    have "respond W (calls (trace (having_done [A f0, Wait 1000, A f1, Wait 2000] 3000 c))) = Ok u"
      using a(5) by (simp add: h_def A_def)
    from request_from_ok [OF this, of 3 3 n m ep] first [OF a(1,2)] second [OF a(3,4), of f0]
    show "R = Some (Inr u, having_done [A f0, Wait 1000, A f1, Wait 2000, S] 3000 c)"
      by (simp add: having_done_eq S_def)
  qed
  show "(\<forall>f0 f1 f2. respond W h = Failed f0 \<and> isRetryable (AxiosError f0)
        \<and> respond W (h + 1) = Failed f1 \<and> isRetryable (AxiosError f1)
        \<and> respond W (h + 2) = Failed f2 \<and> f2 \<noteq> HttpStatus 401 \<longrightarrow>
        R = Some (Inl (AxiosError f2), having_done [A f0, Wait 1000, A f1, Wait 2000, A f2] 3000 c))"
  proof (intro allI impI, elim conjE)
    fix f0 f1 f2
    assume a: "respond W h = Failed f0" "isRetryable (AxiosError f0)" "respond W (h + 1) = Failed f1"
      "isRetryable (AxiosError f1)" "respond W (h + 2) = Failed f2" "f2 \<noteq> HttpStatus 401"
    have "respond W (calls (trace (having_done [A f0, Wait 1000, A f1, Wait 2000] 3000 c))) = Failed f2"
      using a(5) by (simp add: h_def A_def)
    from request_from_throw [OF this a(6), of 3 3 n m ep] first [OF a(1,2)] second [OF a(3,4), of f0]
    show "R = Some (Inl (AxiosError f2), having_done [A f0, Wait 1000, A f1, Wait 2000, A f2] 3000 c)"
      by (simp add: having_done_eq A_def)
  qed
qed

lemma fuel_4: "4 \<le> fuel \<Longrightarrow> \<exists>n. fuel = Suc (Suc (Suc (Suc n)))"
  by (rule exI [of _ "fuel - 4"]) simp

subsection \<open>Authentication\<close>

text \<open>
  Claim C4, as the code has it. As long as none of the next three token exchanges is
  answered 401, \<^verbatim>\<open>authenticate()\<close> returns after one, two or three attempts, given fuel for
  them: it stops at the first exchange that succeeds, stores the token of that exchange and
  sets the expiry to 23 hours from then. Between attempts it waits 1000 ms and then 2000 ms:
  two waits for three attempts, and none after the last. After three failures it throws
  \<^verbatim>\<open>Marzban authentication failed after 3 attempts:\<close> followed by the message of the last
  failure, and the access token and its expiry are what they were.
\<close>

theorem authenticate_retry_schedule:
  assumes "4 \<le> fuel"
    and "\<forall>k<3. token_exchange W (handshakes (trace this) + k) \<noteq> Failed (HttpStatus 401)"
  shows "\<exists>r this'. authenticate fuel W this = Some (r, this')
     \<and> (\<exists>k\<in>{1, 2, 3}.
           handshakes (trace this') = handshakes (trace this) + k
         \<and> waits (trace this') = waits (trace this) @ take (k - 1) [1000, 2000]
         \<and> now this' = now this + sum_list (take (k - 1) [1000, 2000])
         \<and> (\<forall>j<k - 1. \<exists>f. token_exchange W (handshakes (trace this) + j) = Failed f)
         \<and> (case r of
               Inr u \<Rightarrow> token_exchange W (handshakes (trace this) + (k - 1)) = Ok (the (accessToken this'))
                         \<and> accessToken this' \<noteq> None
                         \<and> tokenExpiry this' = now this' + 82800000
             | Inl e \<Rightarrow> k = 3
                         \<and> (\<exists>f. token_exchange W (handshakes (trace this) + 2) = Failed f
                                \<and> e = NewError (''Marzban authentication failed after 3 attempts: ''
                                                 @ axios_message W f))
                         \<and> accessToken this' = accessToken this
                         \<and> tokenExpiry this' = tokenExpiry this))"
proof -
  obtain n where n: "fuel = Suc (Suc (Suc (Suc n)))"
    using fuel_4 [OF assms(1)] by blast
  have "token_exchange W (handshakes (trace this)) \<noteq> Failed (HttpStatus 401)"
    "token_exchange W (handshakes (trace this) + 1) \<noteq> Failed (HttpStatus 401)"
    "token_exchange W (handshakes (trace this) + 2) \<noteq> Failed (HttpStatus 401)"
    using assms(2) [rule_format, of 0] assms(2) [rule_format, of 1] assms(2) [rule_format, of 2]
    by simp_all
  then show ?thesis
    unfolding n by (rule authenticate_schedule_aux)
qed

lemma decimal_500: "decimal 500 = ''500''"
  by (simp add: decimal.simps)

theorem authenticate_retry_schedule_witness:
  "\<exists>this'. authenticate 4 token_endpoint_down fresh =
       Some (Inl (NewError ''Marzban authentication failed after 3 attempts: Request failed with status code 500''),
             this')
     \<and> handshakes (trace this') = 3
     \<and> waits (trace this') = [1000, 2000]
     \<and> now this' = 3000
     \<and> accessToken this' = None"
proof -
  have h: "\<forall>k<3. token_exchange token_endpoint_down (handshakes (trace fresh) + k)
              \<noteq> Failed (HttpStatus 401)"
    by (simp add: token_endpoint_down_def)
  from authenticate_retry_schedule [of 4 token_endpoint_down fresh, OF _ h]
  obtain r this' where a: "authenticate 4 token_endpoint_down fresh = Some (r, this')"
    and b: "\<exists>k\<in>{1, 2, 3}.
           handshakes (trace this') = handshakes (trace fresh) + k
         \<and> waits (trace this') = waits (trace fresh) @ take (k - 1) [1000, 2000]
         \<and> now this' = now fresh + sum_list (take (k - 1) [1000, 2000])
         \<and> (\<forall>j<k - 1. \<exists>f. token_exchange token_endpoint_down (handshakes (trace fresh) + j) = Failed f)
         \<and> (case r of
               Inr u \<Rightarrow> token_exchange token_endpoint_down (handshakes (trace fresh) + (k - 1))
                            = Ok (the (accessToken this'))
                         \<and> accessToken this' \<noteq> None
                         \<and> tokenExpiry this' = now this' + 82800000
             | Inl e \<Rightarrow> k = 3
                         \<and> (\<exists>f. token_exchange token_endpoint_down (handshakes (trace fresh) + 2) = Failed f
                                \<and> e = NewError (''Marzban authentication failed after 3 attempts: ''
                                                 @ axios_message token_endpoint_down f))
                         \<and> accessToken this' = accessToken fresh
                         \<and> tokenExpiry this' = tokenExpiry fresh)"
    by auto
  from b obtain e where r: "r = Inl e"
    by (cases r) (auto simp: token_endpoint_down_def)
  from b r have "e = NewError ''Marzban authentication failed after 3 attempts: Request failed with status code 500''"
    and "handshakes (trace this') = 3" and "waits (trace this') = [1000, 2000]"
    and "now this' = 3000" and "accessToken this' = None"
    by (auto simp: token_endpoint_down_def fresh_def decimal_500)
  with a r show ?thesis by blast
qed

lemma four_fuel: "(4::nat) = Suc (Suc (Suc (Suc 0)))"
  by simp

lemma five_fuel: "(5::nat) = Suc (Suc (Suc (Suc (Suc 0))))"
  by simp

text \<open>
  The claim as stated has three waits, of 1, 2 and 4 seconds. With a token endpoint that
  answers 500 every time the three attempts are separated by a wait of 1000 ms and a wait of
  2000 ms, and the error is thrown right after the third failure.
\<close>

theorem authenticate_retry_schedule_counterexample:
  "authenticate 4 token_endpoint_down fresh =
     Some (Inl (NewError ''Marzban authentication failed after 3 attempts: Request failed with status code 500''),
           \<lparr>accessToken = None, tokenExpiry = 0, isInitialized = False, now = 3000,
            trace = [Handshake (Some (HttpStatus 500)), Wait 1000,
                     Handshake (Some (HttpStatus 500)), Wait 2000,
                     Handshake (Some (HttpStatus 500))]\<rparr>)
   \<and> waits [Handshake (Some (HttpStatus 500)), Wait 1000,
             Handshake (Some (HttpStatus 500)), Wait 2000,
             Handshake (Some (HttpStatus 500))] = [1000, 2000]"
  unfolding four_fuel
  by (simp add: authenticate_def MAX_RETRIES_def RETRY_DELAY_MS_def authenticate_from.simps
        post_token.simps token_endpoint_down_def fresh_def emit_def sleep_def decimal_500 decimal_3)

text \<open>The token endpoint that answers 401: \<^verbatim>\<open>authenticate()\<close> never returns.\<close>

lemma unauthorized_token_endpoint:
  assumes "\<And>k. token_exchange W k = Failed (HttpStatus 401)"
  shows "post_token n W this = None \<and> (a \<le> r \<longrightarrow> authenticate_from n W r a this = None)"
proof (induction n arbitrary: this a r)
  case 0
  show ?case by (simp add: post_token.simps authenticate_from.simps)
next
  case (Suc n)
  have "authenticate_from n W MAX_RETRIES 1 c = None" for c
    using Suc [of c 1 MAX_RETRIES] by (simp add: MAX_RETRIES_def)
  moreover have "post_token n W c = None" for c
    using Suc by blast
  ultimately show ?case
    by (simp add: post_token.simps authenticate_from.simps assms)
qed

lemma authenticate_unauthorized_token_endpoint:
  "(\<And>k. token_exchange W k = Failed (HttpStatus 401)) \<Longrightarrow> authenticate fuel W this = None"
  unfolding authenticate_def using unauthorized_token_endpoint [of W fuel this 1 MAX_RETRIES]
  by (simp add: MAX_RETRIES_def)

subsection \<open>Requests\<close>

text \<open>
  Claim C6. What \<^verbatim>\<open>ensureAuthenticated\<close> throws leaves \<^verbatim>\<open>request\<close> as it is, before any call.
  Once \<^verbatim>\<open>request\<close> has ensured the session, whether that took an authentication or not,
  the outcome is fixed by the answers to at most three calls, none of them 401 where it
  decides. An answer is retryable when it is a timeout or a status of 500 or more. A
  response ends the request at once. A failure that is not retryable is thrown on as it is,
  at the first, the second or the third attempt, with no further call and no further wait.
  A retryable failure at the first attempt is followed by a wait of 1000 ms and a second
  call, one at the second attempt by a wait of 2000 ms and a third call, and whatever the
  third call fails with is thrown on as it is, with no wait after it.
\<close>

theorem request_retry_policy:
  "(ensureAuthenticated fuel W this = None \<longrightarrow> request fuel W m ep this = None)
   \<and> (\<forall>e c. ensureAuthenticated fuel W this = Some (Inl e, c) \<longrightarrow>
         request fuel W m ep this = Some (Inl e, c))
   \<and> (\<forall>c. 4 \<le> fuel \<and> ensureAuthenticated fuel W this = Some (Inr (), c) \<longrightarrow>
     (let h = calls (trace c);
          A = (\<lambda>f. Http m ep (accessToken c) (Some f));
          S = Http m ep (accessToken c) None;
          R = request fuel W m ep this
      in (\<forall>u. respond W h = Ok u \<longrightarrow> R = Some (Inr u, having_done [S] 0 c))
       \<and> (\<forall>f0. respond W h = Failed f0 \<and> f0 \<noteq> HttpStatus 401 \<and> \<not> isRetryable (AxiosError f0) \<longrightarrow>
             R = Some (Inl (AxiosError f0), having_done [A f0] 0 c))
       \<and> (\<forall>f0 u. respond W h = Failed f0 \<and> isRetryable (AxiosError f0) \<and> respond W (h + 1) = Ok u \<longrightarrow>
             R = Some (Inr u, having_done [A f0, Wait 1000, S] 1000 c))
       \<and> (\<forall>f0 f1. respond W h = Failed f0 \<and> isRetryable (AxiosError f0)
             \<and> respond W (h + 1) = Failed f1 \<and> f1 \<noteq> HttpStatus 401 \<and> \<not> isRetryable (AxiosError f1) \<longrightarrow>
             R = Some (Inl (AxiosError f1), having_done [A f0, Wait 1000, A f1] 1000 c))
       \<and> (\<forall>f0 f1 u. respond W h = Failed f0 \<and> isRetryable (AxiosError f0)
             \<and> respond W (h + 1) = Failed f1 \<and> isRetryable (AxiosError f1) \<and> respond W (h + 2) = Ok u \<longrightarrow>
             R = Some (Inr u, having_done [A f0, Wait 1000, A f1, Wait 2000, S] 3000 c))
       \<and> (\<forall>f0 f1 f2. respond W h = Failed f0 \<and> isRetryable (AxiosError f0)
             \<and> respond W (h + 1) = Failed f1 \<and> isRetryable (AxiosError f1)
             \<and> respond W (h + 2) = Failed f2 \<and> f2 \<noteq> HttpStatus 401 \<longrightarrow>
             R = Some (Inl (AxiosError f2), having_done [A f0, Wait 1000, A f1, Wait 2000, A f2] 3000 c))))
   \<and> (\<forall>f. isRetryable (AxiosError f) \<longleftrightarrow> f = Timeout \<or> (\<exists>s. f = HttpStatus s \<and> 500 \<le> s))"
proof (intro conjI allI impI)
  assume "ensureAuthenticated fuel W this = None"
  then show "request fuel W m ep this = None"
    by (simp add: request_def)
next
  fix e c
  assume "ensureAuthenticated fuel W this = Some (Inl e, c)"
  then show "request fuel W m ep this = Some (Inl e, c)"
    by (simp add: request_def)
next
  fix f
  show "isRetryable (AxiosError f) \<longleftrightarrow> f = Timeout \<or> (\<exists>s. f = HttpStatus s \<and> 500 \<le> s)"
    by (cases f) simp_all
next
  fix c
  assume a: "4 \<le> fuel \<and> ensureAuthenticated fuel W this = Some (Inr (), c)"
  then obtain n where n: "fuel = Suc (Suc (Suc (Suc n)))"
    using fuel_4 by blast
  have R: "request fuel W m ep this = request_from (Suc (Suc (Suc (Suc n)))) W m ep 3 1 c"
    using a by (simp add: request_def MAX_RETRIES_def n)
  show "let h = calls (trace c);
          A = (\<lambda>f. Http m ep (accessToken c) (Some f));
          S = Http m ep (accessToken c) None;
          R = request fuel W m ep this
      in (\<forall>u. respond W h = Ok u \<longrightarrow> R = Some (Inr u, having_done [S] 0 c))
       \<and> (\<forall>f0. respond W h = Failed f0 \<and> f0 \<noteq> HttpStatus 401 \<and> \<not> isRetryable (AxiosError f0) \<longrightarrow>
             R = Some (Inl (AxiosError f0), having_done [A f0] 0 c))
       \<and> (\<forall>f0 u. respond W h = Failed f0 \<and> isRetryable (AxiosError f0) \<and> respond W (h + 1) = Ok u \<longrightarrow>
             R = Some (Inr u, having_done [A f0, Wait 1000, S] 1000 c))
       \<and> (\<forall>f0 f1. respond W h = Failed f0 \<and> isRetryable (AxiosError f0)
             \<and> respond W (h + 1) = Failed f1 \<and> f1 \<noteq> HttpStatus 401 \<and> \<not> isRetryable (AxiosError f1) \<longrightarrow>
             R = Some (Inl (AxiosError f1), having_done [A f0, Wait 1000, A f1] 1000 c))
       \<and> (\<forall>f0 f1 u. respond W h = Failed f0 \<and> isRetryable (AxiosError f0)
             \<and> respond W (h + 1) = Failed f1 \<and> isRetryable (AxiosError f1) \<and> respond W (h + 2) = Ok u \<longrightarrow>
             R = Some (Inr u, having_done [A f0, Wait 1000, A f1, Wait 2000, S] 3000 c))
       \<and> (\<forall>f0 f1 f2. respond W h = Failed f0 \<and> isRetryable (AxiosError f0)
             \<and> respond W (h + 1) = Failed f1 \<and> isRetryable (AxiosError f1)
             \<and> respond W (h + 2) = Failed f2 \<and> f2 \<noteq> HttpStatus 401 \<longrightarrow>
             R = Some (Inl (AxiosError f2), having_done [A f0, Wait 1000, A f1, Wait 2000, A f2] 3000 c))"
    unfolding Let_def R
    using request_from_policy [where W = W and c = c and m = m and ep = ep and n = n]
    by (intro conjI) blast+
qed

theorem request_retry_policy_witness:
  "request 4 (panel_with [HttpStatus 503, Timeout] alice) Get ''/api/user/alice'' signed_in =
     Some (Inr alice,
           having_done [Http Get ''/api/user/alice'' (Some ''t0'') (Some (HttpStatus 503)), Wait 1000,
                        Http Get ''/api/user/alice'' (Some ''t0'') (Some Timeout), Wait 2000,
                        Http Get ''/api/user/alice'' (Some ''t0'') None] 3000 signed_in)
   \<and> request 4 (panel_with [HttpStatus 503, HttpStatus 404] alice) Get ''/api/user/alice'' signed_in =
     Some (Inl (AxiosError (HttpStatus 404)),
           having_done [Http Get ''/api/user/alice'' (Some ''t0'') (Some (HttpStatus 503)), Wait 1000,
                        Http Get ''/api/user/alice'' (Some ''t0'') (Some (HttpStatus 404))] 1000 signed_in)
   \<and> request 4 token_endpoint_down Get ''/api/user/alice'' fresh =
     Some (Inl (NewError ''Marzban authentication failed after 3 attempts: Request failed with status code 500''),
           having_done [Handshake (Some (HttpStatus 500)), Wait 1000,
                        Handshake (Some (HttpStatus 500)), Wait 2000,
                        Handshake (Some (HttpStatus 500))] 3000 fresh)"
proof -
  have e: "4 \<le> (4::nat) \<and> ensureAuthenticated 4 W signed_in = Some (Inr (), signed_in)" for W
    by (simp add: ensureAuthenticated_def signed_in_def)
  have r1: "respond (panel_with [HttpStatus 503, Timeout] alice) (calls (trace signed_in)) = Failed (HttpStatus 503)"
    "respond (panel_with [HttpStatus 503, Timeout] alice) (calls (trace signed_in) + 1) = Failed Timeout"
    "respond (panel_with [HttpStatus 503, Timeout] alice) (calls (trace signed_in) + 2) = Ok alice"
    by (simp_all add: panel_with_def answering_def signed_in_def)
  have r2: "respond (panel_with [HttpStatus 503, HttpStatus 404] alice) (calls (trace signed_in)) = Failed (HttpStatus 503)"
    "respond (panel_with [HttpStatus 503, HttpStatus 404] alice) (calls (trace signed_in) + 1) = Failed (HttpStatus 404)"
    by (simp_all add: panel_with_def answering_def signed_in_def)
  have t: "accessToken signed_in = Some ''t0''"
    by (simp add: signed_in_def)
  have d: "ensureAuthenticated 4 token_endpoint_down fresh =
     Some (Inl (NewError ''Marzban authentication failed after 3 attempts: Request failed with status code 500''),
           having_done [Handshake (Some (HttpStatus 500)), Wait 1000,
                        Handshake (Some (HttpStatus 500)), Wait 2000,
                        Handshake (Some (HttpStatus 500))] 3000 fresh)"
    unfolding four_fuel
    by (simp add: ensureAuthenticated_def authenticate_def MAX_RETRIES_def RETRY_DELAY_MS_def
          authenticate_from.simps post_token.simps token_endpoint_down_def fresh_def emit_def sleep_def
          having_done_def decimal_500 decimal_3)
  from request_retry_policy [of 4 "panel_with [HttpStatus 503, Timeout] alice" signed_in
          Get "''/api/user/alice''", THEN conjunct2, THEN conjunct2, THEN conjunct1, rule_format,
          of signed_in, OF e] r1 t
  have 1: "request 4 (panel_with [HttpStatus 503, Timeout] alice) Get ''/api/user/alice'' signed_in =
     Some (Inr alice,
           having_done [Http Get ''/api/user/alice'' (Some ''t0'') (Some (HttpStatus 503)), Wait 1000,
                        Http Get ''/api/user/alice'' (Some ''t0'') (Some Timeout), Wait 2000,
                        Http Get ''/api/user/alice'' (Some ''t0'') None] 3000 signed_in)"
    by (simp add: Let_def)
  from request_retry_policy [of 4 "panel_with [HttpStatus 503, HttpStatus 404] alice" signed_in
          Get "''/api/user/alice''", THEN conjunct2, THEN conjunct2, THEN conjunct1, rule_format,
          of signed_in, OF e] r2 t
  have 2: "request 4 (panel_with [HttpStatus 503, HttpStatus 404] alice) Get ''/api/user/alice'' signed_in =
     Some (Inl (AxiosError (HttpStatus 404)),
           having_done [Http Get ''/api/user/alice'' (Some ''t0'') (Some (HttpStatus 503)), Wait 1000,
                        Http Get ''/api/user/alice'' (Some ''t0'') (Some (HttpStatus 404))] 1000 signed_in)"
    by (simp add: Let_def)
  from request_retry_policy [of 4 token_endpoint_down fresh Get "''/api/user/alice''",
          THEN conjunct2, THEN conjunct1, rule_format, OF d]
  have 3: "request 4 token_endpoint_down Get ''/api/user/alice'' fresh =
     Some (Inl (NewError ''Marzban authentication failed after 3 attempts: Request failed with status code 500''),
           having_done [Handshake (Some (HttpStatus 500)), Wait 1000,
                        Handshake (Some (HttpStatus 500)), Wait 2000,
                        Handshake (Some (HttpStatus 500))] 3000 fresh)" .
  from 1 2 3 show ?thesis by blast
qed

subsection \<open>The 401 branch of the interceptor\<close>

lemma authenticate_granted:
  assumes "\<And>k. \<exists>t. token_exchange W k = Ok t"
  shows "authenticate n W this = None \<or> (\<exists>this'. authenticate n W this = Some (Inr (), this'))"
proof (cases n)
  case 0
  then show ?thesis by (simp add: authenticate_def authenticate_from.simps)
next
  case (Suc n')
  obtain t where t: "token_exchange W (handshakes (trace this)) = Ok t"
    using assms by blast
  show ?thesis
  proof (cases n')
    case 0
    with Suc show ?thesis
      by (simp add: authenticate_def authenticate_from.simps post_token.simps MAX_RETRIES_def)
  next
    case (Suc n'')
    with \<open>n = Suc n'\<close> t show ?thesis
      by (simp add: authenticate_def authenticate_from.simps post_token.simps MAX_RETRIES_def)
  qed
qed

lemma client_call_unauthorized:
  assumes tok: "\<And>k. \<exists>t. token_exchange W k = Ok t"
    and una: "\<And>k. respond W k = Failed (HttpStatus 401)"
  shows "client_call n W m ep this = None"
proof (induction n arbitrary: this)
  case 0
  show ?case by (simp add: client_call.simps)
next
  case (Suc n)
  let ?c = "emit Reauthenticate (emit (Http m ep (accessToken this) (Some (HttpStatus 401))) this)"
  from authenticate_granted [OF tok, of n ?c]
  show ?case
  proof
    assume "authenticate n W ?c = None"
    then show ?thesis by (simp add: client_call.simps una)
  next
    assume "\<exists>this'. authenticate n W ?c = Some (Inr (), this')"
    then obtain this' where "authenticate n W ?c = Some (Inr (), this')" by blast
    then show ?thesis by (simp add: client_call.simps una Suc)
  qed
qed

lemma request_never_returns:
  assumes tok: "\<And>k. \<exists>t. token_exchange W k = Ok t"
    and una: "\<And>k. respond W k = Failed (HttpStatus 401)"
  shows "request fuel W m ep this = None"
proof -
  have rf: "request_from n W m ep MAX_RETRIES (Suc 0) c = None" for n c
    by (cases n) (simp_all add: request_from.simps client_call_unauthorized [OF tok una] MAX_RETRIES_def)
  have "ensureAuthenticated fuel W this = None
        \<or> (\<exists>this'. ensureAuthenticated fuel W this = Some (Inr (), this'))"
    using authenticate_granted [OF tok, of fuel this] by (auto simp: ensureAuthenticated_def)
  then show ?thesis
    by (auto simp: request_def rf)
qed

text \<open>
  Claim C3, evaluated on the code. A request answered 401 once is followed by one entry
  into the 401 branch of the interceptor, one token exchange and one replay, which returns
  the account. A request answered 401 twice is not ended by the second 401: the replay
  enters the 401 branch again, a second token exchange and a second replay follow, and the
  account of the third answer is returned. Against a panel that answers 401 to every call
  and grants every token exchange, no amount of fuel lets the request return.
\<close>

theorem request_unauthorized_replays:
  "request 5 (panel_with [HttpStatus 401] alice) Get ''/api/user/alice'' signed_in =
     Some (Inr alice,
           \<lparr>accessToken = Some ''t1'', tokenExpiry = 82800000, isInitialized = True, now = 0,
            trace = [Http Get ''/api/user/alice'' (Some ''t0'') (Some (HttpStatus 401)),
                     Reauthenticate, Handshake None, Replay,
                     Http Get ''/api/user/alice'' (Some ''t1'') None]\<rparr>)
   \<and> request 5 (panel_with [HttpStatus 401, HttpStatus 401] alice) Get ''/api/user/alice'' signed_in =
     Some (Inr alice,
           \<lparr>accessToken = Some ''t1'', tokenExpiry = 82800000, isInitialized = True, now = 0,
            trace = [Http Get ''/api/user/alice'' (Some ''t0'') (Some (HttpStatus 401)),
                     Reauthenticate, Handshake None, Replay,
                     Http Get ''/api/user/alice'' (Some ''t1'') (Some (HttpStatus 401)),
                     Reauthenticate, Handshake None, Replay,
                     Http Get ''/api/user/alice'' (Some ''t1'') None]\<rparr>)
   \<and> (\<forall>fuel. request fuel always_unauthorized Get ''/api/user/alice'' signed_in = None)"
proof -
  have 1: "request 5 (panel_with [HttpStatus 401] alice) Get ''/api/user/alice'' signed_in =
     Some (Inr alice,
           \<lparr>accessToken = Some ''t1'', tokenExpiry = 82800000, isInitialized = True, now = 0,
            trace = [Http Get ''/api/user/alice'' (Some ''t0'') (Some (HttpStatus 401)),
                     Reauthenticate, Handshake None, Replay,
                     Http Get ''/api/user/alice'' (Some ''t1'') None]\<rparr>)"
    unfolding five_fuel
    by (simp add: request_def ensureAuthenticated_def request_from.simps client_call.simps
          authenticate_def authenticate_from.simps post_token.simps MAX_RETRIES_def
          panel_with_def answering_def signed_in_def emit_def)
  have 2: "request 5 (panel_with [HttpStatus 401, HttpStatus 401] alice) Get ''/api/user/alice'' signed_in =
     Some (Inr alice,
           \<lparr>accessToken = Some ''t1'', tokenExpiry = 82800000, isInitialized = True, now = 0,
            trace = [Http Get ''/api/user/alice'' (Some ''t0'') (Some (HttpStatus 401)),
                     Reauthenticate, Handshake None, Replay,
                     Http Get ''/api/user/alice'' (Some ''t1'') (Some (HttpStatus 401)),
                     Reauthenticate, Handshake None, Replay,
                     Http Get ''/api/user/alice'' (Some ''t1'') None]\<rparr>)"
    unfolding five_fuel
    by (simp add: request_def ensureAuthenticated_def request_from.simps client_call.simps
          authenticate_def authenticate_from.simps post_token.simps MAX_RETRIES_def
          panel_with_def answering_def signed_in_def emit_def)
  have 3: "request fuel always_unauthorized Get ''/api/user/alice'' signed_in = None" for fuel
    by (rule request_never_returns) (simp_all add: always_unauthorized_def)
  from 1 2 3 show ?thesis by blast
qed

subsection \<open>Only the operations leave their mark\<close>

lemma token_quiet:
  "(post_token n W this = Some (r, c) \<longrightarrow> invoked op (trace c) = invoked op (trace this))
   \<and> (authenticate_from n W k a this = Some (q, c') \<longrightarrow> invoked op (trace c') = invoked op (trace this))"
proof (induction n arbitrary: this r c q c' a k)
  case 0
  show ?case by (simp add: post_token.simps authenticate_from.simps)
next
  case (Suc n)
  have pt: "post_token n W x = Some (y, z) \<Longrightarrow> invoked op (trace z) = invoked op (trace x)" for x y z
    using Suc by blast
  have au: "authenticate_from n W j b x = Some (y, z) \<Longrightarrow> invoked op (trace z) = invoked op (trace x)"
    for x y z j b
    using Suc by blast
  have 1: "post_token (Suc n) W this = Some (r, c) \<longrightarrow> invoked op (trace c) = invoked op (trace this)"
    by (auto simp: post_token.simps split: reply.splits option.splits sum.splits prod.splits if_splits
             dest!: pt au)
  have 2: "authenticate_from (Suc n) W k a this = Some (q, c') \<longrightarrow>
           invoked op (trace c') = invoked op (trace this)"
    by (auto simp: authenticate_from.simps split: reply.splits option.splits sum.splits prod.splits if_splits
             dest!: pt au)
  show ?case using 1 2 by blast
qed

lemma authenticate_quiet:
  "authenticate n W this = Some (q, c) \<Longrightarrow> invoked op (trace c) = invoked op (trace this)"
  unfolding authenticate_def using token_quiet [where n = n and q = q and c' = c] by blast

lemma ensureAuthenticated_quiet:
  "ensureAuthenticated n W this = Some (q, c) \<Longrightarrow> invoked op (trace c) = invoked op (trace this)"
  unfolding ensureAuthenticated_def by (auto dest: authenticate_quiet split: if_splits)

lemma client_call_quiet:
  "client_call n W m ep this = Some (r, c) \<Longrightarrow> invoked op (trace c) = invoked op (trace this)"
proof (induction n arbitrary: this r c)
  case 0
  then show ?case by (simp add: client_call.simps)
next
  case (Suc n)
  have cc: "client_call n W m ep x = Some (y, z) \<Longrightarrow> invoked op (trace z) = invoked op (trace x)" for x y z
    using Suc.IH by blast
  show ?case
    using Suc.prems
    by (auto simp: client_call.simps split: reply.splits option.splits sum.splits prod.splits if_splits
             dest!: cc authenticate_quiet [where op = op])
qed

lemma request_from_quiet:
  "request_from n W m ep k a this = Some (r, c) \<Longrightarrow> invoked op (trace c) = invoked op (trace this)"
proof (induction n arbitrary: this r c a)
  case 0
  then show ?case by (simp add: request_from.simps)
next
  case (Suc n)
  have rf: "request_from n W m ep k b x = Some (y, z) \<Longrightarrow> invoked op (trace z) = invoked op (trace x)"
    for x y z b
    using Suc.IH by blast
  show ?case
    using Suc.prems
    by (auto simp: request_from.simps split: option.splits sum.splits prod.splits if_splits
             dest!: rf client_call_quiet [where op = op])
qed

lemma request_quiet:
  assumes "request n W m ep this = Some (r, c)"
  shows "invoked op (trace c) = invoked op (trace this)"
proof (cases "ensureAuthenticated n W this")
  case None
  with assms show ?thesis by (simp add: request_def)
next
  case (Some q)
  obtain res c1 where q: "q = (res, c1)" by (cases q)
  have e: "invoked op (trace c1) = invoked op (trace this)"
    using Some q ensureAuthenticated_quiet by blast
  show ?thesis
  proof (cases res)
    case (Inl err)
    with assms Some q e show ?thesis by (simp add: request_def)
  next
    case (Inr u)
    with assms Some q have "request_from n W m ep MAX_RETRIES 1 c1 = Some (r, c)"
      by (simp add: request_def)
    from request_from_quiet [OF this] e show ?thesis by simp
  qed
qed

lemma getUser_invoked:
  assumes "getUser n W u this = Some (r, c)"
  shows "invoked op (trace c) = invoked op (trace this) + (if op = GetUser u then 1 else 0)"
proof -
  obtain r' where "request n W Get (''/api/user/'' @ u) (emit (Invoke (GetUser u)) this) = Some (r', c)"
    using assms by (auto simp: getUser_def split: option.splits sum.splits prod.splits if_splits)
  from request_quiet [OF this, of op] show ?thesis by auto
qed

lemma createUser_invoked:
  assumes "createUser n W u q x this = Some (r, c)"
  shows "invoked op (trace c) = invoked op (trace this) + (if op = CreateUser u q x then 1 else 0)"
proof -
  obtain r' where "request n W Post ''/api/user'' (emit (Invoke (CreateUser u q x)) this) = Some (r', c)"
    using assms by (auto simp: createUser_def split: option.splits sum.splits prod.splits if_splits)
  from request_quiet [OF this, of op] show ?thesis by auto
qed

subsection \<open>Operations at the examples\<close>

lemma decimal_443: "decimal 443 = ''443''"
  by (simp add: decimal.simps)

lemmas panel_eval =
  request_def ensureAuthenticated_def request_from.simps client_call.simps authenticate_def
  authenticate_from.simps post_token.simps MAX_RETRIES_def RETRY_DELAY_MS_def panel_with_def
  answering_def signed_in_def emit_def sleep_def getUser_def createUser_def having_done_def

lemma request_first_ok:
  assumes "4 \<le> fuel" and "ensureAuthenticated fuel W this = Some (Inr (), c)"
    and "respond W (calls (trace c)) = Ok u"
  shows "request fuel W m ep this = Some (Inr u, having_done [Http m ep (accessToken c) None] 0 c)"
proof -
  obtain n where n: "fuel = Suc (Suc (Suc (Suc n)))"
    using fuel_4 [OF assms(1)] by blast
  have "request fuel W m ep this = request_from (Suc (Suc (Suc (Suc n)))) W m ep 3 1 c"
    using assms(2) by (simp add: request_def MAX_RETRIES_def n)
  with request_from_policy(1) [where W = W and c = c and m = m and ep = ep and n = n] assms(3)
  show ?thesis by simp
qed

lemma request_first_throw:
  assumes "4 \<le> fuel" and "ensureAuthenticated fuel W this = Some (Inr (), c)"
    and "respond W (calls (trace c)) = Failed f" and "f \<noteq> HttpStatus 401"
    and "\<not> isRetryable (AxiosError f)"
  shows "request fuel W m ep this =
           Some (Inl (AxiosError f), having_done [Http m ep (accessToken c) (Some f)] 0 c)"
proof -
  obtain n where n: "fuel = Suc (Suc (Suc (Suc n)))"
    using fuel_4 [OF assms(1)] by blast
  have "request fuel W m ep this = request_from (Suc (Suc (Suc (Suc n)))) W m ep 3 1 c"
    using assms(2) by (simp add: request_def MAX_RETRIES_def n)
  with request_from_policy(2) [where W = W and c = c and m = m and ep = ep and n = n] assms(3-5)
  show ?thesis by simp
qed

subsection \<open>The connection string\<close>

lemma falsy_iff: "falsy x \<longleftrightarrow> x = None \<or> x = Some []"
  by (cases x) auto

text \<open>
  Claim C7, as the code has it. When \<^verbatim>\<open>getUser\<close> returns an account whose
  \<^verbatim>\<open>proxies.vless.id\<close> is not empty, \<^verbatim>\<open>getVlessConfig\<close> returns the connection string
  built from it, the host, the port as the runtime renders it, and the username. When the
  account has no such entry or an empty one it throws
  \<^verbatim>\<open>Failed to get VLESS config: VLESS ID not found for user\<close>. When \<^verbatim>\<open>getUser\<close> throws it
  throws \<^verbatim>\<open>Failed to get VLESS config:\<close> followed by the message of that error. It returns
  exactly when \<^verbatim>\<open>getUser\<close> does.
\<close>

theorem getVlessConfig_uri:
  "(\<forall>user this' ident.
      getUser fuel W username this = Some (Inr user, this') \<and> vless_id user = Some ident \<and> ident \<noteq> [] \<longrightarrow>
      getVlessConfig fuel W render username serverHost serverPort this =
        Some (Inr (''vless://'' @ ident @ ''@'' @ serverHost @ '':'' @ render serverPort
                   @ ''?encryption=none&flow=xtls-rprx-vision&security=tls&sni='' @ serverHost
                   @ ''&type=tcp&headerType=none#'' @ username), this'))
   \<and> (\<forall>user this'.
      getUser fuel W username this = Some (Inr user, this')
      \<and> (vless_id user = None \<or> vless_id user = Some []) \<longrightarrow>
      getVlessConfig fuel W render username serverHost serverPort this =
        Some (Inl (NewError ''Failed to get VLESS config: VLESS ID not found for user''), this'))
   \<and> (\<forall>error this'.
      getUser fuel W username this = Some (Inl error, this') \<longrightarrow>
      getVlessConfig fuel W render username serverHost serverPort this =
        Some (Inl (NewError (''Failed to get VLESS config: '' @ message W error)), this'))
   \<and> (getUser fuel W username this = None \<longrightarrow>
      getVlessConfig fuel W render username serverHost serverPort this = None)"
  by (auto simp: getVlessConfig_def falsy_iff)

lemma getUser_found:
  "getUser 4 (panel_with [] user) ''alice'' signed_in =
     Some (Inr user,
           \<lparr>accessToken = Some ''t0'', tokenExpiry = 82800000, isInitialized = True, now = 0,
            trace = [Invoke (GetUser ''alice''), Http Get ''/api/user/alice'' (Some ''t0'') None]\<rparr>)"
  unfolding four_fuel by (simp add: panel_eval)

lemma getUser_missing:
  "getUser 4 (panel_with [HttpStatus 404] user) ''ghost'' signed_in =
     Some (Inl (NewError ''Marzban user not found: ghost''),
           \<lparr>accessToken = Some ''t0'', tokenExpiry = 82800000, isInitialized = True, now = 0,
            trace = [Invoke (GetUser ''ghost''),
                     Http Get ''/api/user/ghost'' (Some ''t0'') (Some (HttpStatus 404))]\<rparr>)"
  unfolding four_fuel by (simp add: panel_eval)

theorem getVlessConfig_uri_witness:
  "getVlessConfig 4 (panel_with [] alice) decimal ''alice'' ''vpn.example.com'' 443 signed_in =
     Some (Inr ''vless://abc-123@vpn.example.com:443?encryption=none&flow=xtls-rprx-vision&security=tls&sni=vpn.example.com&type=tcp&headerType=none#alice'',
           \<lparr>accessToken = Some ''t0'', tokenExpiry = 82800000, isInitialized = True, now = 0,
            trace = [Invoke (GetUser ''alice''), Http Get ''/api/user/alice'' (Some ''t0'') None]\<rparr>)
   \<and> getVlessConfig 4 (panel_with [HttpStatus 404] alice) decimal ''ghost'' ''vpn.example.com'' 443 signed_in =
     Some (Inl (NewError ''Failed to get VLESS config: Marzban user not found: ghost''),
           \<lparr>accessToken = Some ''t0'', tokenExpiry = 82800000, isInitialized = True, now = 0,
            trace = [Invoke (GetUser ''ghost''),
                     Http Get ''/api/user/ghost'' (Some ''t0'') (Some (HttpStatus 404))]\<rparr>)"
  using getVlessConfig_uri [of 4 "panel_with [] alice" "''alice''" signed_in decimal
          "''vpn.example.com''" 443]
        getVlessConfig_uri [of 4 "panel_with [HttpStatus 404] alice" "''ghost''" signed_in decimal
          "''vpn.example.com''" 443]
        getUser_found [of alice] getUser_missing [of alice]
  by (simp add: alice_def decimal_443)

text \<open>
  The claim as stated gives a string for every proxy identity. For the account whose
  identity is the empty string it would be \<^verbatim>\<open>vless://@vpn.example.com:443?...\<close>; the code
  throws.
\<close>

theorem getVlessConfig_uri_counterexample:
  "getVlessConfig 4 (panel_with [] (alice\<lparr>vless_id := Some []\<rparr>)) decimal ''alice''
       ''vpn.example.com'' 443 signed_in =
     Some (Inl (NewError ''Failed to get VLESS config: VLESS ID not found for user''),
           \<lparr>accessToken = Some ''t0'', tokenExpiry = 82800000, isInitialized = True, now = 0,
            trace = [Invoke (GetUser ''alice''), Http Get ''/api/user/alice'' (Some ''t0'') None]\<rparr>)"
  by (simp add: getVlessConfig_def getUser_found alice_def)

subsection \<open>Existence\<close>

text \<open>
  Claim C8. \<^verbatim>\<open>userExists\<close> never throws: it is \<^verbatim>\<open>true\<close> when \<^verbatim>\<open>getUser\<close> returns an account and
  \<^verbatim>\<open>false\<close> when \<^verbatim>\<open>getUser\<close> throws anything, and it returns exactly when \<^verbatim>\<open>getUser\<close> does. Down to
  the panel: with the session ensured, a first answer that is an account gives \<^verbatim>\<open>true\<close> after
  that one call, and a first answer that is a failure other than 401 and not retryable, a
  404 and a network failure alike, gives \<^verbatim>\<open>false\<close> after that one call.
\<close>

theorem userExists_coarse:
  "(\<forall>user this'. getUser fuel W username this = Some (Inr user, this') \<longrightarrow>
       userExists fuel W username this = Some (True, this'))
   \<and> (\<forall>error this'. getUser fuel W username this = Some (Inl error, this') \<longrightarrow>
       userExists fuel W username this = Some (False, this'))
   \<and> (userExists fuel W username this = None \<longleftrightarrow> getUser fuel W username this = None)
   \<and> (\<forall>c user. 4 \<le> fuel
         \<and> ensureAuthenticated fuel W (emit (Invoke (GetUser username)) this) = Some (Inr (), c)
         \<and> respond W (calls (trace c)) = Ok user \<longrightarrow>
       userExists fuel W username this =
         Some (True, having_done [Http Get (''/api/user/'' @ username) (accessToken c) None] 0 c))
   \<and> (\<forall>c f. 4 \<le> fuel
         \<and> ensureAuthenticated fuel W (emit (Invoke (GetUser username)) this) = Some (Inr (), c)
         \<and> respond W (calls (trace c)) = Failed f \<and> f \<noteq> HttpStatus 401
         \<and> \<not> isRetryable (AxiosError f) \<longrightarrow>
       userExists fuel W username this =
         Some (False, having_done [Http Get (''/api/user/'' @ username) (accessToken c) (Some f)] 0 c))"
proof (intro conjI allI impI)
  fix user this'
  assume "getUser fuel W username this = Some (Inr user, this')"
  then show "userExists fuel W username this = Some (True, this')"
    by (simp add: userExists_def)
next
  fix error this'
  assume "getUser fuel W username this = Some (Inl error, this')"
  then show "userExists fuel W username this = Some (False, this')"
    by (simp add: userExists_def)
next
  show "userExists fuel W username this = None \<longleftrightarrow> getUser fuel W username this = None"
    by (auto simp: userExists_def split: option.splits sum.splits prod.splits)
next
  fix c user
  assume a: "4 \<le> fuel
         \<and> ensureAuthenticated fuel W (emit (Invoke (GetUser username)) this) = Some (Inr (), c)
         \<and> respond W (calls (trace c)) = Ok user"
  then have "request fuel W Get (''/api/user/'' @ username) (emit (Invoke (GetUser username)) this)
             = Some (Inr user, having_done [Http Get (''/api/user/'' @ username) (accessToken c) None] 0 c)"
    using request_first_ok by blast
  then show "userExists fuel W username this =
         Some (True, having_done [Http Get (''/api/user/'' @ username) (accessToken c) None] 0 c)"
    by (simp add: userExists_def getUser_def)
next
  fix c f
  assume a: "4 \<le> fuel
         \<and> ensureAuthenticated fuel W (emit (Invoke (GetUser username)) this) = Some (Inr (), c)
         \<and> respond W (calls (trace c)) = Failed f \<and> f \<noteq> HttpStatus 401
         \<and> \<not> isRetryable (AxiosError f)"
  then have "request fuel W Get (''/api/user/'' @ username) (emit (Invoke (GetUser username)) this)
             = Some (Inl (AxiosError f),
                     having_done [Http Get (''/api/user/'' @ username) (accessToken c) (Some f)] 0 c)"
    using request_first_throw by blast
  then show "userExists fuel W username this =
         Some (False, having_done [Http Get (''/api/user/'' @ username) (accessToken c) (Some f)] 0 c)"
    by (simp add: userExists_def getUser_def)
qed

theorem userExists_coarse_witness:
  "userExists 4 (panel_with [] alice) ''alice'' signed_in =
     Some (True, having_done [Invoke (GetUser ''alice''),
                              Http Get ''/api/user/alice'' (Some ''t0'') None] 0 signed_in)
   \<and> userExists 4 (panel_with [HttpStatus 404] alice) ''alice'' signed_in =
     Some (False, having_done [Invoke (GetUser ''alice''),
                               Http Get ''/api/user/alice'' (Some ''t0'') (Some (HttpStatus 404))] 0 signed_in)
   \<and> userExists 4 (panel_with [NetworkFailure] alice) ''alice'' signed_in =
     Some (False, having_done [Invoke (GetUser ''alice''),
                               Http Get ''/api/user/alice'' (Some ''t0'') (Some NetworkFailure)] 0 signed_in)"
proof -
  let ?c = "emit (Invoke (GetUser ''alice'')) signed_in"
  have e: "ensureAuthenticated 4 W ?c = Some (Inr (), ?c)" for W
    by (simp add: ensureAuthenticated_def signed_in_def)
  have r: "respond (panel_with [] alice) (calls (trace ?c)) = Ok alice"
    "respond (panel_with [HttpStatus 404] alice) (calls (trace ?c)) = Failed (HttpStatus 404)"
    "respond (panel_with [NetworkFailure] alice) (calls (trace ?c)) = Failed NetworkFailure"
    by (simp_all add: panel_with_def answering_def signed_in_def)
  have t: "accessToken ?c = Some ''t0''"
    by (simp add: signed_in_def)
  have h: "having_done es 0 ?c = having_done (Invoke (GetUser ''alice'') # es) 0 signed_in" for es
    by (simp add: having_done_eq)
  have 1: "userExists 4 (panel_with [] alice) ''alice'' signed_in =
     Some (True, having_done [Invoke (GetUser ''alice''),
                              Http Get ''/api/user/alice'' (Some ''t0'') None] 0 signed_in)"
    using userExists_coarse [of 4 "panel_with [] alice" "''alice''" signed_in] e r(1) t
    by (simp add: h)
  have 2: "userExists 4 (panel_with [HttpStatus 404] alice) ''alice'' signed_in =
     Some (False, having_done [Invoke (GetUser ''alice''),
                               Http Get ''/api/user/alice'' (Some ''t0'') (Some (HttpStatus 404))] 0 signed_in)"
    using userExists_coarse [of 4 "panel_with [HttpStatus 404] alice" "''alice''" signed_in] e r(2) t
    by (simp add: h)
  have 3: "userExists 4 (panel_with [NetworkFailure] alice) ''alice'' signed_in =
     Some (False, having_done [Invoke (GetUser ''alice''),
                               Http Get ''/api/user/alice'' (Some ''t0'') (Some NetworkFailure)] 0 signed_in)"
    using userExists_coarse [of 4 "panel_with [NetworkFailure] alice" "''alice''" signed_in] e r(3) t
    by (simp add: h)
  from 1 2 3 show ?thesis by blast
qed

subsection \<open>Fetching or creating\<close>

text \<open>
  Claim C9. \<^verbatim>\<open>getOrCreateUser\<close> returns the account of \<^verbatim>\<open>getUser\<close> when that returns one, and then
  \<^verbatim>\<open>createUser\<close> is not entered. When \<^verbatim>\<open>getUser\<close> throws, whatever it throws, the result is the
  result of \<^verbatim>\<open>createUser\<close> from the state \<^verbatim>\<open>getUser\<close> has left, and by then \<^verbatim>\<open>getUser\<close> has been
  entered once and \<^verbatim>\<open>createUser\<close> once. Down to the panel: with the session ensured,
  \<^verbatim>\<open>createUser\<close> returns the account the panel answers with, and for an answer that is a
  failure other than 401 and not retryable it throws \<^verbatim>\<open>Failed to create Marzban user:\<close>
  followed by the message of that failure.
\<close>

theorem getOrCreateUser_provisions:
  "(\<forall>user this'. getUser fuel W username this = Some (Inr user, this') \<longrightarrow>
      getOrCreateUser fuel W username dataLimit expireDate this = Some (Inr user, this')
      \<and> invoked (GetUser username) (trace this') = invoked (GetUser username) (trace this) + 1
      \<and> invoked (CreateUser username dataLimit expireDate) (trace this')
          = invoked (CreateUser username dataLimit expireDate) (trace this))
   \<and> (\<forall>error this'. getUser fuel W username this = Some (Inl error, this') \<longrightarrow>
      getOrCreateUser fuel W username dataLimit expireDate this
        = createUser fuel W username dataLimit expireDate this'
      \<and> (\<forall>r this''. createUser fuel W username dataLimit expireDate this' = Some (r, this'') \<longrightarrow>
            invoked (GetUser username) (trace this'') = invoked (GetUser username) (trace this) + 1
          \<and> invoked (CreateUser username dataLimit expireDate) (trace this'')
              = invoked (CreateUser username dataLimit expireDate) (trace this) + 1))
   \<and> (getUser fuel W username this = None \<longrightarrow>
      getOrCreateUser fuel W username dataLimit expireDate this = None)
   \<and> (\<forall>this' c result. 4 \<le> fuel
        \<and> ensureAuthenticated fuel W (emit (Invoke (CreateUser username dataLimit expireDate)) this')
            = Some (Inr (), c)
        \<and> respond W (calls (trace c)) = Ok result \<longrightarrow>
      createUser fuel W username dataLimit expireDate this' =
        Some (Inr result, having_done [Http Post ''/api/user'' (accessToken c) None] 0 c))
   \<and> (\<forall>this' c f. 4 \<le> fuel
        \<and> ensureAuthenticated fuel W (emit (Invoke (CreateUser username dataLimit expireDate)) this')
            = Some (Inr (), c)
        \<and> respond W (calls (trace c)) = Failed f \<and> f \<noteq> HttpStatus 401
        \<and> \<not> isRetryable (AxiosError f) \<longrightarrow>
      createUser fuel W username dataLimit expireDate this' =
        Some (Inl (NewError (''Failed to create Marzban user: '' @ axios_message W f)),
              having_done [Http Post ''/api/user'' (accessToken c) (Some f)] 0 c))"
proof (intro conjI allI impI)
  fix user this'
  assume g: "getUser fuel W username this = Some (Inr user, this')"
  then show "getOrCreateUser fuel W username dataLimit expireDate this = Some (Inr user, this')"
    by (simp add: getOrCreateUser_def)
  from getUser_invoked [OF g, of "GetUser username"]
  show "invoked (GetUser username) (trace this') = invoked (GetUser username) (trace this) + 1"
    by simp
  from getUser_invoked [OF g, of "CreateUser username dataLimit expireDate"]
  show "invoked (CreateUser username dataLimit expireDate) (trace this')
          = invoked (CreateUser username dataLimit expireDate) (trace this)"
    by simp
next
  fix error this'
  assume g: "getUser fuel W username this = Some (Inl error, this')"
  then show "getOrCreateUser fuel W username dataLimit expireDate this
        = createUser fuel W username dataLimit expireDate this'"
    by (simp add: getOrCreateUser_def)
  fix r this''
  assume c: "createUser fuel W username dataLimit expireDate this' = Some (r, this'')"
  from getUser_invoked [OF g, of "GetUser username"] createUser_invoked [OF c, of "GetUser username"]
  show "invoked (GetUser username) (trace this'') = invoked (GetUser username) (trace this) + 1"
    by simp
  from getUser_invoked [OF g, of "CreateUser username dataLimit expireDate"]
       createUser_invoked [OF c, of "CreateUser username dataLimit expireDate"]
  show "invoked (CreateUser username dataLimit expireDate) (trace this'')
              = invoked (CreateUser username dataLimit expireDate) (trace this) + 1"
    by simp
next
  assume "getUser fuel W username this = None"
  then show "getOrCreateUser fuel W username dataLimit expireDate this = None"
    by (simp add: getOrCreateUser_def)
next
  fix this' c result
  assume "4 \<le> fuel
        \<and> ensureAuthenticated fuel W (emit (Invoke (CreateUser username dataLimit expireDate)) this')
            = Some (Inr (), c)
        \<and> respond W (calls (trace c)) = Ok result"
  then have "request fuel W Post ''/api/user'' (emit (Invoke (CreateUser username dataLimit expireDate)) this')
             = Some (Inr result, having_done [Http Post ''/api/user'' (accessToken c) None] 0 c)"
    using request_first_ok by blast
  then show "createUser fuel W username dataLimit expireDate this' =
        Some (Inr result, having_done [Http Post ''/api/user'' (accessToken c) None] 0 c)"
    by (simp add: createUser_def)
next
  fix this' c f
  assume "4 \<le> fuel
        \<and> ensureAuthenticated fuel W (emit (Invoke (CreateUser username dataLimit expireDate)) this')
            = Some (Inr (), c)
        \<and> respond W (calls (trace c)) = Failed f \<and> f \<noteq> HttpStatus 401
        \<and> \<not> isRetryable (AxiosError f)"
  then have "request fuel W Post ''/api/user'' (emit (Invoke (CreateUser username dataLimit expireDate)) this')
             = Some (Inl (AxiosError f), having_done [Http Post ''/api/user'' (accessToken c) (Some f)] 0 c)"
    using request_first_throw by blast
  then show "createUser fuel W username dataLimit expireDate this' =
        Some (Inl (NewError (''Failed to create Marzban user: '' @ axios_message W f)),
              having_done [Http Post ''/api/user'' (accessToken c) (Some f)] 0 c)"
    by (simp add: createUser_def)
qed

lemma getUser_absent:
  "getUser 4 (panel_with (HttpStatus 404 # fs) user) ''alice'' signed_in =
     Some (Inl (NewError ''Marzban user not found: alice''),
           \<lparr>accessToken = Some ''t0'', tokenExpiry = 82800000, isInitialized = True, now = 0,
            trace = [Invoke (GetUser ''alice''),
                     Http Get ''/api/user/alice'' (Some ''t0'') (Some (HttpStatus 404))]\<rparr>)"
  unfolding four_fuel by (simp add: panel_eval)

theorem getOrCreateUser_provisions_witness:
  "getOrCreateUser 4 (panel_with [] alice) ''alice'' 0 None signed_in =
     Some (Inr alice,
           \<lparr>accessToken = Some ''t0'', tokenExpiry = 82800000, isInitialized = True, now = 0,
            trace = [Invoke (GetUser ''alice''), Http Get ''/api/user/alice'' (Some ''t0'') None]\<rparr>)
   \<and> getOrCreateUser 4 (panel_with [HttpStatus 404] alice) ''alice'' 0 None signed_in =
     Some (Inr alice,
           \<lparr>accessToken = Some ''t0'', tokenExpiry = 82800000, isInitialized = True, now = 0,
            trace = [Invoke (GetUser ''alice''),
                     Http Get ''/api/user/alice'' (Some ''t0'') (Some (HttpStatus 404)),
                     Invoke (CreateUser ''alice'' 0 None),
                     Http Post ''/api/user'' (Some ''t0'') None]\<rparr>)
   \<and> getOrCreateUser 4 (panel_with [HttpStatus 404, HttpStatus 409] alice) ''alice'' 0 None signed_in =
     Some (Inl (NewError ''Failed to create Marzban user: Request failed with status code 409''),
           \<lparr>accessToken = Some ''t0'', tokenExpiry = 82800000, isInitialized = True, now = 0,
            trace = [Invoke (GetUser ''alice''),
                     Http Get ''/api/user/alice'' (Some ''t0'') (Some (HttpStatus 404)),
                     Invoke (CreateUser ''alice'' 0 None),
                     Http Post ''/api/user'' (Some ''t0'') (Some (HttpStatus 409))]\<rparr>)"
proof -
  let ?c = "\<lparr>accessToken = Some ''t0'', tokenExpiry = 82800000, isInitialized = True, now = 0,
            trace = [Invoke (GetUser ''alice''),
                     Http Get ''/api/user/alice'' (Some ''t0'') (Some (HttpStatus 404))]\<rparr>"
  let ?d = "emit (Invoke (CreateUser ''alice'' 0 None)) ?c"
  have e: "ensureAuthenticated 4 W ?d = Some (Inr (), ?d)" for W
    by (simp add: ensureAuthenticated_def emit_def)
  have r: "respond (panel_with [HttpStatus 404] alice) (calls (trace ?d)) = Ok alice"
    "respond (panel_with [HttpStatus 404, HttpStatus 409] alice) (calls (trace ?d)) = Failed (HttpStatus 409)"
    by (simp_all add: panel_with_def answering_def)
  have 1: "getOrCreateUser 4 (panel_with [] alice) ''alice'' 0 None signed_in =
     Some (Inr alice,
           \<lparr>accessToken = Some ''t0'', tokenExpiry = 82800000, isInitialized = True, now = 0,
            trace = [Invoke (GetUser ''alice''), Http Get ''/api/user/alice'' (Some ''t0'') None]\<rparr>)"
    using getOrCreateUser_provisions [of 4 "panel_with [] alice" "''alice''" signed_in 0 None]
          getUser_found [of alice]
    by simp
  have l: "(4::nat) \<le> 4" by simp
  have n: "HttpStatus 409 \<noteq> HttpStatus 401" "\<not> isRetryable (AxiosError (HttpStatus 409))"
    by simp_all
  have m: "axios_message (panel_with fs alice) (HttpStatus 409) = ''Request failed with status code 409''" for fs
    by (simp add: panel_with_def decimal.simps)
  note T2 = getOrCreateUser_provisions [of 4 "panel_with [HttpStatus 404] alice" "''alice''" signed_in 0 None]
  from T2 getUser_absent [of _ alice]
  have a2: "getOrCreateUser 4 (panel_with [HttpStatus 404] alice) ''alice'' 0 None signed_in
            = createUser 4 (panel_with [HttpStatus 404] alice) ''alice'' 0 None ?c"
    by blast
  from T2 l e r(1)
  have b2: "createUser 4 (panel_with [HttpStatus 404] alice) ''alice'' 0 None ?c
            = Some (Inr alice, having_done [Http Post ''/api/user'' (accessToken ?d) None] 0 ?d)"
    by blast
  have 2: "getOrCreateUser 4 (panel_with [HttpStatus 404] alice) ''alice'' 0 None signed_in =
     Some (Inr alice,
           \<lparr>accessToken = Some ''t0'', tokenExpiry = 82800000, isInitialized = True, now = 0,
            trace = [Invoke (GetUser ''alice''),
                     Http Get ''/api/user/alice'' (Some ''t0'') (Some (HttpStatus 404)),
                     Invoke (CreateUser ''alice'' 0 None),
                     Http Post ''/api/user'' (Some ''t0'') None]\<rparr>)"
    unfolding a2 b2 by (simp add: having_done_def emit_def)
  note T3 = getOrCreateUser_provisions
            [of 4 "panel_with [HttpStatus 404, HttpStatus 409] alice" "''alice''" signed_in 0 None]
  from T3 getUser_absent [of _ alice]
  have a3: "getOrCreateUser 4 (panel_with [HttpStatus 404, HttpStatus 409] alice) ''alice'' 0 None signed_in
            = createUser 4 (panel_with [HttpStatus 404, HttpStatus 409] alice) ''alice'' 0 None ?c"
    by blast
  from T3 [THEN conjunct2, THEN conjunct2, THEN conjunct2, THEN conjunct2, rule_format,
           of ?c ?d "HttpStatus 409"] l e r(2) n
  have b3: "createUser 4 (panel_with [HttpStatus 404, HttpStatus 409] alice) ''alice'' 0 None ?c
            = Some (Inl (NewError (''Failed to create Marzban user: ''
                           @ axios_message (panel_with [HttpStatus 404, HttpStatus 409] alice) (HttpStatus 409))),
                    having_done [Http Post ''/api/user'' (accessToken ?d) (Some (HttpStatus 409))] 0 ?d)"
    by simp
  have 3: "getOrCreateUser 4 (panel_with [HttpStatus 404, HttpStatus 409] alice) ''alice'' 0 None signed_in =
     Some (Inl (NewError ''Failed to create Marzban user: Request failed with status code 409''),
           \<lparr>accessToken = Some ''t0'', tokenExpiry = 82800000, isInitialized = True, now = 0,
            trace = [Invoke (GetUser ''alice''),
                     Http Get ''/api/user/alice'' (Some ''t0'') (Some (HttpStatus 404)),
                     Invoke (CreateUser ''alice'' 0 None),
                     Http Post ''/api/user'' (Some ''t0'') (Some (HttpStatus 409))]\<rparr>)"
    unfolding a3 b3 by (simp add: having_done_def emit_def m)
  from 1 2 3 show ?thesis by blast
qed

subsection \<open>The singleton\<close>


lemma callers_append [simp]: "callers (xs @ ys) = callers xs @ callers ys"
  by (induction xs rule: callers.induct) simp_all





text \<open>
  What a settlement with success stands for: when \<^verbatim>\<open>initialize()\<close> returns, the instance is
  initialized and holds the access token of a token exchange, good for 23 hours.
\<close>

lemma authenticate_from_session:
  "authenticate_from n W r a this = Some (Inr u, c) \<Longrightarrow> a \<le> r \<Longrightarrow>
   accessToken c \<noteq> None \<and> tokenExpiry c = now c + 82800000"
proof (induction n arbitrary: a this)
  case 0
  then show ?case by (simp add: authenticate_from.simps)
next
  case (Suc n)
  show ?case
  proof (cases "post_token n W this")
    case None
    with Suc.prems show ?thesis by (simp add: authenticate_from.simps)
  next
    case (Some q)
    obtain res c1 where q: "q = (res, c1)" by (cases q)
    show ?thesis
    proof (cases res)
      case (Inr t)
      with Suc.prems Some q show ?thesis
        by (auto simp: authenticate_from.simps)
    next
      case (Inl e)
      with Suc.prems Some q have ne: "a \<noteq> r"
        by (auto simp: authenticate_from.simps)
      with Suc.prems Some q Inl
      have "authenticate_from n W r (a + 1) (sleep (RETRY_DELAY_MS * 2 ^ (a - 1)) c1) = Some (Inr u, c)"
        by (simp add: authenticate_from.simps)
      moreover have "a + 1 \<le> r" using ne Suc.prems(2) by simp
      ultimately show ?thesis by (rule Suc.IH)
    qed
  qed
qed

lemma initialize_session:
  assumes "initialize n W this = Some (Inr u, c)"
  shows "isInitialized c \<and> accessToken c \<noteq> None \<and> tokenExpiry c = now c + 82800000"
proof -
  from assms obtain c1 where a: "authenticate n W this = Some (Inr (), c1)"
    and c: "c = c1\<lparr>isInitialized := True\<rparr>"
    by (auto simp: initialize_def split: option.splits sum.splits prod.splits)
  from a have "accessToken c1 \<noteq> None \<and> tokenExpiry c1 = now c1 + 82800000"
    unfolding authenticate_def MAX_RETRIES_def by (rule authenticate_from_session) simp
  with c show ?thesis by simp
qed

end
